theory Spec2Isabelle
  imports Complex_Main "HOL-Library.Sublist" "HOL-Library.AList"
    "HOL-Library.Char_ord" "HOL-Library.List_Lexorder"
begin

section \<open>WaveNet Cardigan feed: the script variants as HOL functions\<close>

text \<open>
  The repository holds successive variants of one Node script. The variants modelled here:
  \<^item> \<^bold>\<open>A\<close>: \<^verbatim>\<open>src/fetch_cefas.mjs\<close>, first script (three literal timestamp shapes,
    \<^verbatim>\<open>classifyParam\<close>, rows matched by InstId or Deployment);
  \<^item> \<^bold>\<open>C\<close>: \<^verbatim>\<open>src/unnamed/part_000\<close>, first script (\<^verbatim>\<open>wanted\<close> table, \<^verbatim>\<open>matchesStation\<close>);
  \<^item> \<^bold>\<open>D\<close>: \<^verbatim>\<open>src/unnamed/part_000\<close>, second script (its \<^verbatim>\<open>toISO\<close>);
  \<^item> \<^bold>\<open>E\<close>: \<^verbatim>\<open>src/unnamed/part_001\<close> (wide/long detection);
  \<^item> \<^bold>\<open>F\<close>: \<^verbatim>\<open>src/unnamed/part_002\<close> (\<^verbatim>\<open>rowIsCardigan\<close>).
  A function that several variants define under one name carries the variant's letter.

  Strings are lists of \<^typ>\<open>char\<close>, read as ASCII code units: case mapping acts on the
  letters A..Z and a..z only, and white space is the ASCII white space.
\<close>

subsection \<open>String primitives of the host language\<close>

definition is_space :: "char \<Rightarrow> bool" where
  "is_space c = (c \<in> set [CHR 0x09, CHR 0x0A, CHR 0x0B, CHR 0x0C, CHR 0x0D, CHR '' ''])"

definition is_digit :: "char \<Rightarrow> bool" where
  "is_digit c = (c \<in> set ''0123456789'')"

text \<open>\<^verbatim>\<open>String.prototype.trim\<close>.\<close>

definition trim :: "string \<Rightarrow> string" where
  "trim s = rev (dropWhile is_space (rev (dropWhile is_space s)))"

definition lower_char :: "char \<Rightarrow> char" where
  "lower_char c =
     (case map_of (zip ''ABCDEFGHIJKLMNOPQRSTUVWXYZ'' ''abcdefghijklmnopqrstuvwxyz'') c of
        Some d \<Rightarrow> d | None \<Rightarrow> c)"

definition upper_char :: "char \<Rightarrow> char" where
  "upper_char c =
     (case map_of (zip ''abcdefghijklmnopqrstuvwxyz'' ''ABCDEFGHIJKLMNOPQRSTUVWXYZ'') c of
        Some d \<Rightarrow> d | None \<Rightarrow> c)"

definition toLowerCase :: "string \<Rightarrow> string" where
  "toLowerCase s = map lower_char s"

definition toUpperCase :: "string \<Rightarrow> string" where
  "toUpperCase s = map upper_char s"

text \<open>\<^verbatim>\<open>s.includes(n)\<close>: \<open>n\<close> occurs in \<open>s\<close> as a contiguous run.\<close>

fun includes_s :: "string \<Rightarrow> string \<Rightarrow> bool" where
  "includes_s [] n = (n = [])"
| "includes_s (c # cs) n = (prefix n (c # cs) \<or> includes_s cs n)"

text \<open>\<^verbatim>\<open>s.replace(",", ".")\<close>: a string pattern replaces the first occurrence only.\<close>

fun replace_comma :: "string \<Rightarrow> string" where
  "replace_comma [] = []"
| "replace_comma (c # cs) = (if c = CHR '','' then CHR ''.'' # cs else c # replace_comma cs)"

text \<open>\<^verbatim>\<open>s.replace(/[^a-z0-9]/g, "")\<close> and \<^verbatim>\<open>s.replace(/\D/g, "")\<close>.\<close>

definition strip_non_alnum :: "string \<Rightarrow> string" where
  "strip_non_alnum s = filter (\<lambda>c. c \<in> set ''abcdefghijklmnopqrstuvwxyz0123456789'') s"

definition strip_non_digits :: "string \<Rightarrow> string" where
  "strip_non_digits s = filter is_digit s"

text \<open>
  A value that may be \<^verbatim>\<open>undefined\<close> or \<^verbatim>\<open>null\<close> is a \<^typ>\<open>string option\<close>.
  \<^verbatim>\<open>const norm = s => String(s ?? "").trim(); const lc = s => norm(s).toLowerCase();\<close>
\<close>

definition nullish :: "string option \<Rightarrow> string" where
  "nullish v = (case v of None \<Rightarrow> [] | Some s \<Rightarrow> s)"

definition norm_s :: "string option \<Rightarrow> string" where
  "norm_s v = trim (nullish v)"

definition lc :: "string option \<Rightarrow> string" where
  "lc v = toLowerCase (norm_s v)"

subsection \<open>Parameter classifiers\<close>

datatype ckey = Hm0 | Tp | Tz | Dir

text \<open>
  The normalized text every classifier computes first:
  \<^verbatim>\<open>const t = lc(v).replace(/[^a-z0-9]/g, "")\<close>.
\<close>

definition label_text :: "string option \<Rightarrow> string" where
  "label_text v = strip_non_alnum (lc v)"

text \<open>\<^verbatim>\<open>classifyParam\<close> of variant A (\<^verbatim>\<open>src/fetch_cefas.mjs\<close>, lines 56 to 63).\<close>

definition classifyParam :: "string option \<Rightarrow> ckey option" where
  "classifyParam v =
     (let t = label_text v in
      if includes_s t ''hm0'' \<or> includes_s t ''hs'' \<or> includes_s t ''significantwaveheight''
        then Some Hm0
      else if t = ''tpeak'' \<or> t = ''tp'' \<or> includes_s t ''peakperiod'' \<or> t = ''tpp''
        then Some Tp
      else if t = ''tz'' \<or> t = ''t02'' \<or> includes_s t ''zerocross''
        then Some Tz
      else if includes_s t ''w_pdir'' \<or> t = ''dp'' \<or> includes_s t ''peakdirection''
              \<or> includes_s t ''mwd'' \<or> includes_s t ''direction''
        then Some Dir
      else None)"

text \<open>\<^verbatim>\<open>classifyLongParam\<close> of variant E (\<^verbatim>\<open>src/unnamed/part_001\<close>, lines 68 to 75).\<close>

definition classifyLongParam :: "string option \<Rightarrow> ckey option" where
  "classifyLongParam v =
     (let t = label_text v in
      if includes_s t ''hm0'' \<or> includes_s t ''hs'' \<or> includes_s t ''significantwaveheight''
        then Some Hm0
      else if t = ''tpeak'' \<or> t = ''tp'' \<or> includes_s t ''peakperiod'' \<or> t = ''tpp''
        then Some Tp
      else if t = ''tz'' \<or> t = ''t02'' \<or> includes_s t ''zerocross''
        then Some Tz
      else if includes_s t ''w_pdir'' \<or> t = ''dp'' \<or> includes_s t ''peakdirection''
              \<or> includes_s t ''mwd'' \<or> includes_s t ''direction''
        then Some Dir
      else None)"

text \<open>
  \<^verbatim>\<open>classifyWideHeader\<close> of variant E (lines 59 to 66). The first test is the regular
  expression \<^verbatim>\<open>/(^|)hm0($|)/\<close>: both groups have an empty alternative, so it matches
  wherever \<^verbatim>\<open>hm0\<close> occurs.
\<close>

definition classifyWideHeader :: "string \<Rightarrow> ckey option" where
  "classifyWideHeader h =
     (let t = label_text (Some h) in
      if includes_s t ''hm0'' \<or> includes_s t ''hs'' \<or> includes_s t ''significantwaveheight''
        then Some Hm0
      else if t = ''tpeak'' \<or> t = ''tp'' \<or> includes_s t ''peakperiod''
        then Some Tp
      else if t = ''tz'' \<or> t = ''t02'' \<or> includes_s t ''zerocross''
        then Some Tz
      else if includes_s t ''w_pdir'' \<or> t = ''dp'' \<or> includes_s t ''peakdirection''
              \<or> includes_s t ''mwd'' \<or> t = ''direction'' \<or> includes_s t ''meandirection''
        then Some Dir
      else None)"

text \<open>
  The rule for \<open>dir\<close> as the specification words it, over the normalized text; kept
  apart from the code's classifiers, to be compared with them.
\<close>

definition spec_dir_rule :: "string \<Rightarrow> bool" where
  "spec_dir_rule t =
     (includes_s t ''wpdir'' \<or> t = ''dp'' \<or> includes_s t ''peakdirection'' \<or> t = ''mwd''
      \<or> includes_s t ''meandirection'' \<or> t = ''direction'')"

subsection \<open>Shape detection (variant E, lines 116 to 122)\<close>

text \<open>
  \<^verbatim>\<open>wideMap\<close> is a plain object: an association list in insertion order, where an
  assignment to a key already present keeps the key's place.
\<close>

fun wideMap_loop :: "string list \<Rightarrow> (ckey \<times> string) list \<Rightarrow> (ckey \<times> string) list" where
  "wideMap_loop [] m = m"
| "wideMap_loop (h # hs) m =
     (case classifyWideHeader h of
        Some k \<Rightarrow> wideMap_loop hs (AList.update k h m)
      | None \<Rightarrow> wideMap_loop hs m)"

definition wideMap :: "string list \<Rightarrow> (ckey \<times> string) list" where
  "wideMap headers = wideMap_loop headers []"

definition isWide :: "string list \<Rightarrow> bool" where
  "isWide headers = (2 \<le> length (map fst (wideMap headers)))"

datatype shape = Wide | Long

definition shape_of :: "string list \<Rightarrow> shape" where
  "shape_of headers = (if isWide headers then Wide else Long)"

subsection \<open>Numbers: \<^verbatim>\<open>parseFloat\<close>\<close>

text \<open>
  A Number is \<open>NaN\<close>, an infinity or a finite value. The model keeps a finite value as
  the exact rational that the decimal text denotes; the script holds the binary64 nearest
  to it, which is a function of that rational (and does not tell \<open>-0\<close> from \<open>0\<close>).
  The text denotes an infinity when the rational rounds beyond the largest binary64,
  that is from \<open>2^1024 - 2^970\<close> on.
\<close>

datatype jsnum = NaN | PosInf | NegInf | Fin rat

definition digit_val :: "char \<Rightarrow> nat" where
  "digit_val c = (case map_of (zip ''0123456789'' [0, 1, 2, 3, 4, 5, 6, 7, 8, 9]) c of
                    Some d \<Rightarrow> d | None \<Rightarrow> 0)"

definition digits_val :: "string \<Rightarrow> nat" where
  "digits_val ds = foldl (\<lambda>a c. 10 * a + digit_val c) 0 ds"

definition pow10 :: "int \<Rightarrow> rat" where
  "pow10 e = (if 0 \<le> e then 10 ^ nat e else 1 / 10 ^ nat (- e))"

definition number_value :: "rat \<Rightarrow> jsnum" where
  "number_value v =
     (if 2 ^ 1024 - 2 ^ 970 \<le> \<bar>v\<bar> then (if v < 0 then NegInf else PosInf) else Fin v)"

text \<open>
  The optional exponent at the head of the rest: \<^verbatim>\<open>e\<close> or \<^verbatim>\<open>E\<close>, an optional sign and
  at least one digit; an \<^verbatim>\<open>e\<close> with no digit after it is not part of the number.
\<close>

definition exponent_part :: "string \<Rightarrow> int" where
  "exponent_part r =
     (case r of
        [] \<Rightarrow> 0
      | e # r1 \<Rightarrow>
          if e = CHR ''e'' \<or> e = CHR ''E'' then
            (case r1 of
               [] \<Rightarrow> 0
             | sg # r2 \<Rightarrow>
                 if sg = CHR ''-'' then - int (digits_val (takeWhile is_digit r2))
                 else if sg = CHR ''+'' then int (digits_val (takeWhile is_digit r2))
                 else int (digits_val (takeWhile is_digit r1)))
          else 0)"

text \<open>
  \<^verbatim>\<open>parseFloat\<close>: skip leading white space, then read the longest prefix that is a decimal
  literal (sign, \<^verbatim>\<open>Infinity\<close> or digits with an optional fraction and exponent); whatever
  follows is ignored, and no such prefix gives \<open>NaN\<close>.
\<close>

definition parseFloat :: "string \<Rightarrow> jsnum" where
  "parseFloat input =
     (let t = dropWhile is_space input;
          neg = (t \<noteq> [] \<and> hd t = CHR ''-'');
          u = (if t \<noteq> [] \<and> (hd t = CHR ''-'' \<or> hd t = CHR ''+'') then tl t else t)
      in if prefix ''Infinity'' u then (if neg then NegInf else PosInf)
         else
           let ip = takeWhile is_digit u;
               r1 = dropWhile is_digit u;
               dot = (r1 \<noteq> [] \<and> hd r1 = CHR ''.'');
               fp = (if dot then takeWhile is_digit (tl r1) else []);
               r2 = (if dot then dropWhile is_digit (tl r1) else r1)
           in if ip = [] \<and> fp = [] then NaN
              else number_value
                     ((if neg then - 1 else 1)
                      * (of_nat (digits_val ip) + of_nat (digits_val fp) / 10 ^ length fp)
                      * pow10 (exponent_part r2)))"

subsection \<open>Rows, headers and configuration\<close>

text \<open>
  A parsed row is an object from column names to cells, in the order of the columns
  (the names are taken to be distinct and none a canonical array index, which
  \<^verbatim>\<open>Object.keys\<close> would list first). \<^verbatim>\<open>r[col]\<close> with \<^verbatim>\<open>col === null\<close> reads the
  property named \<^verbatim>\<open>null\<close>.
\<close>

type_synonym row = "(string \<times> string) list"

definition Object_keys :: "row \<Rightarrow> string list" where
  "Object_keys r = map fst r"

definition cell :: "row \<Rightarrow> string option \<Rightarrow> string option" where
  "cell r col = map_of r (case col of None \<Rightarrow> ''null'' | Some c \<Rightarrow> c)"

text \<open>A string or \<^verbatim>\<open>null\<close> used as a condition: \<^verbatim>\<open>null\<close> and the empty string are falsy.\<close>

definition truthy :: "string option \<Rightarrow> bool" where
  "truthy v = (case v of None \<Rightarrow> False | Some s \<Rightarrow> s \<noteq> [])"

definition js_or :: "string option \<Rightarrow> string option \<Rightarrow> string option" where
  "js_or a b = (if truthy a then a else b)"

text \<open>The environment variables the scripts read; \<^verbatim>\<open>process.env.X || d\<close> is \<open>env_or\<close>.\<close>

record env =
  env_STATION_CODE :: "string option"
  env_PLATFORM_ID :: "string option"
  env_INST_ID :: "string option"

definition env_or :: "string option \<Rightarrow> string \<Rightarrow> string" where
  "env_or v d = (if truthy v then the v else d)"

definition default_env :: env where
  "default_env = \<lparr>env_STATION_CODE = None, env_PLATFORM_ID = None, env_INST_ID = None\<rparr>"

subsection \<open>Header classifier\<close>

text \<open>\<^verbatim>\<open>pickExact\<close> and \<^verbatim>\<open>pickLoose\<close> (variants A and E), \<^verbatim>\<open>findTimeCol\<close> (variant E).\<close>

fun pickExact :: "string list \<Rightarrow> string list \<Rightarrow> string option" where
  "pickExact headers [] = None"
| "pickExact headers (n # ns) =
     (case find (\<lambda>h. lc (Some h) = lc (Some n)) headers of
        Some h \<Rightarrow> Some h
      | None \<Rightarrow> pickExact headers ns)"

fun pickLoose :: "string list \<Rightarrow> string list \<Rightarrow> string option" where
  "pickLoose headers [] = None"
| "pickLoose headers (n # ns) =
     (case find (\<lambda>h. includes_s (lc (Some h)) (lc (Some n))) headers of
        Some h \<Rightarrow> Some h
      | None \<Rightarrow> pickLoose headers ns)"

definition findTimeCol :: "string list \<Rightarrow> string option" where
  "findTimeCol headers =
     js_or (pickExact headers [''DateTime'', ''SampleDateTime'', ''Timestamp'', ''Time'', ''Datetime''])
           (pickLoose headers [''date'', ''time''])"

text \<open>
  \<^verbatim>\<open>findCol\<close> (variant C): exact candidates first, then the loose needles, both on
  \<^verbatim>\<open>toLowerCase\<close> alone.
\<close>

fun findCol_exact :: "string list \<Rightarrow> string list \<Rightarrow> string option" where
  "findCol_exact headers [] = None"
| "findCol_exact headers (e # es) =
     (case find (\<lambda>x. toLowerCase x = toLowerCase e) headers of
        Some h \<Rightarrow> Some h
      | None \<Rightarrow> findCol_exact headers es)"

fun findCol_loose :: "string list \<Rightarrow> string list \<Rightarrow> string option" where
  "findCol_loose headers [] = None"
| "findCol_loose headers (p # ps) =
     (case find (\<lambda>x. includes_s (toLowerCase x) (toLowerCase p)) headers of
        Some h \<Rightarrow> Some h
      | None \<Rightarrow> findCol_loose headers ps)"

definition findCol :: "string list \<Rightarrow> string list \<Rightarrow> string list \<Rightarrow> string option" where
  "findCol headers exact loose =
     (case findCol_exact headers exact of
        Some h \<Rightarrow> Some h
      | None \<Rightarrow> findCol_loose headers loose)"

text \<open>
  \<^verbatim>\<open>[a, b].filter(Boolean)\<close> keeps the truthy entries; \<^verbatim>\<open>[...new Set(xs)]\<close> is \<open>xs\<close>
  without repetitions, each entry at its first place.
\<close>

definition filter_Boolean :: "string option list \<Rightarrow> string list" where
  "filter_Boolean xs = map the (filter truthy xs)"

definition uniq :: "string list \<Rightarrow> string list" where
  "uniq xs = rev (remdups (rev xs))"

fun join_s :: "string \<Rightarrow> string list \<Rightarrow> string" where
  "join_s sep [] = []"
| "join_s sep [x] = x"
| "join_s sep (x # y # ys) = x @ sep @ join_s sep (y # ys)"

subsection \<open>Row selectors\<close>

text \<open>Variant C: \<^verbatim>\<open>matchesStation\<close> (\<^verbatim>\<open>src/unnamed/part_000\<close>, lines 53 to 57).\<close>

definition STATION_CODE_C :: "env \<Rightarrow> string" where
  "STATION_CODE_C e = env_or (env_STATION_CODE e) ''EXT''"

definition PLATFORM_ID_C :: "env \<Rightarrow> string" where
  "PLATFORM_ID_C e = env_or (env_PLATFORM_ID e) ''353~EXT''"

definition matchesStation :: "env \<Rightarrow> string option \<Rightarrow> string option \<Rightarrow> row \<Rightarrow> bool" where
  "matchesStation e stationCol platformCol r =
     (let s = (if truthy stationCol then toUpperCase (trim (nullish (cell r stationCol))) else []);
          p = (if truthy platformCol then toUpperCase (trim (nullish (cell r platformCol))) else [])
      in s = toUpperCase (STATION_CODE_C e) \<or> p = toUpperCase (PLATFORM_ID_C e))"

text \<open>Variant F: \<^verbatim>\<open>rowIsCardigan\<close> (\<^verbatim>\<open>src/unnamed/part_002\<close>, lines 37 to 52).\<close>

definition needles_F :: "env \<Rightarrow> string list" where
  "needles_F e =
     [toUpperCase (env_or (env_STATION_CODE e) ''EXT''),
      toUpperCase (env_or (env_PLATFORM_ID e) ''353~EXT''),
      ''353'', ''CARDIGAN'']"

definition pool_F :: "row \<Rightarrow> string list \<Rightarrow> string list \<Rightarrow> string list \<Rightarrow> string list" where
  "pool_F r stationCols platformCols nameCols =
     map (\<lambda>c. nullish (cell r (Some c))) stationCols
     @ map (\<lambda>c. nullish (cell r (Some c))) platformCols
     @ map (\<lambda>c. nullish (cell r (Some c))) nameCols"

definition hay_F :: "row \<Rightarrow> string list \<Rightarrow> string list \<Rightarrow> string list \<Rightarrow> string" where
  "hay_F r stationCols platformCols nameCols =
     toUpperCase (join_s ''|'' (pool_F r stationCols platformCols nameCols))"

definition rowIsCardigan ::
  "env \<Rightarrow> row \<Rightarrow> string list \<Rightarrow> string list \<Rightarrow> string list \<Rightarrow> bool" where
  "rowIsCardigan e r stationCols platformCols nameCols =
     list_ex (\<lambda>n. includes_s (hay_F r stationCols platformCols nameCols) n) (needles_F e)"

text \<open>
  Variant E: \<^verbatim>\<open>stationMatchPool\<close> and \<^verbatim>\<open>looksLikeCardigan\<close> (\<^verbatim>\<open>src/unnamed/part_001\<close>,
  lines 45 to 56). \<open>alone_353\<close> is the test \<^verbatim>\<open>/(^|[^0-9])353([^0-9]|$)/\<close>; its first
  argument says whether a digit stands before the text.
\<close>

definition STATION_CODE_E :: "env \<Rightarrow> string" where
  "STATION_CODE_E e = toUpperCase (env_or (env_STATION_CODE e) ''EXT'')"

definition PLATFORM_ID_E :: "env \<Rightarrow> string" where
  "PLATFORM_ID_E e = toUpperCase (env_or (env_PLATFORM_ID e) ''353~EXT'')"

definition stationMatchPool :: "row \<Rightarrow> string list \<Rightarrow> string" where
  "stationMatchPool r stationCols = join_s '' | '' (map (\<lambda>c. lc (Some (nullish (cell r (Some c))))) stationCols)"

fun alone_353 :: "bool \<Rightarrow> string \<Rightarrow> bool" where
  "alone_353 after_digit [] = False"
| "alone_353 after_digit (c # cs) =
     ((\<not> after_digit \<and> prefix ''353'' (c # cs)
         \<and> (case drop 3 (c # cs) of [] \<Rightarrow> True | d # _ \<Rightarrow> \<not> is_digit d))
      \<or> alone_353 (is_digit c) cs)"

definition looksLikeCardigan :: "env \<Rightarrow> string \<Rightarrow> bool" where
  "looksLikeCardigan e pool =
     (includes_s pool (lc (Some (STATION_CODE_E e)))
      \<or> includes_s pool (lc (Some (PLATFORM_ID_E e)))
      \<or> alone_353 False pool
      \<or> includes_s pool ''cardigan'')"

text \<open>Variant A: \<^verbatim>\<open>isCardigan\<close> (\<^verbatim>\<open>src/fetch_cefas.mjs\<close>, lines 92 to 100).\<close>

definition STATION_CODE_A :: "env \<Rightarrow> string" where
  "STATION_CODE_A e = toUpperCase (env_or (env_STATION_CODE e) ''EXT'')"

definition PLATFORM_ID_A :: "env \<Rightarrow> string" where
  "PLATFORM_ID_A e = toUpperCase (env_or (env_PLATFORM_ID e) ''353~EXT'')"

definition INST_ID_ENV :: "env \<Rightarrow> string" where
  "INST_ID_ENV e = (if truthy (env_INST_ID e) then trim (the (env_INST_ID e)) else ''353'')"

definition isCardigan :: "env \<Rightarrow> string option \<Rightarrow> string option \<Rightarrow> row \<Rightarrow> bool" where
  "isCardigan e instCol deployCol r =
     (let instVal = (if truthy instCol then norm_s (cell r instCol) else []);
          depVal = (if truthy deployCol then lc (cell r deployCol) else [])
      in if instVal \<noteq> [] \<and> strip_non_digits instVal = strip_non_digits (INST_ID_ENV e) then True
         else if includes_s depVal ''cardigan'' then True
         else if includes_s depVal (lc (Some (STATION_CODE_A e))) then True
         else False)"

subsection \<open>The host: generic date parsing and string collation\<close>

text \<open>
  Two library functions are left to the engine that runs the script, so the model takes
  them as parameters: \<^verbatim>\<open>new Date(s)\<close> on a string \<open>s\<close> (the time value in milliseconds,
  or \<open>None\<close> for an invalid date) and \<^verbatim>\<open>a.localeCompare(b)\<close>.
\<close>

record host =
  Date_parse :: "string \<Rightarrow> int option"
  localeCompare :: "string \<Rightarrow> string \<Rightarrow> int"

subsection \<open>Calendar arithmetic: \<^verbatim>\<open>Date.UTC\<close> and \<^verbatim>\<open>toISOString\<close>\<close>

definition DayFromYear :: "int \<Rightarrow> int" where
  "DayFromYear y =
     365 * (y - 1970) + (y - 1969) div 4 - (y - 1901) div 100 + (y - 1601) div 400"

definition InLeapYear :: "int \<Rightarrow> bool" where
  "InLeapYear y = (y mod 4 = 0 \<and> (y mod 100 \<noteq> 0 \<or> y mod 400 = 0))"

definition month_start :: "bool \<Rightarrow> nat \<Rightarrow> int" where
  "month_start leap m =
     [0, 31, 59, 90, 120, 151, 181, 212, 243, 273, 304, 334] ! m
     + (if leap \<and> 2 \<le> m then 1 else 0)"

text \<open>\<open>MakeDay\<close> takes the month from 0 and carries months outside 0..11 into the year.\<close>

definition MakeDay :: "int \<Rightarrow> int \<Rightarrow> int \<Rightarrow> int" where
  "MakeDay year month date =
     (let ym = year + month div 12; mn = nat (month mod 12)
      in DayFromYear ym + month_start (InLeapYear ym) mn + date - 1)"

definition MakeTime :: "int \<Rightarrow> int \<Rightarrow> int \<Rightarrow> int \<Rightarrow> int" where
  "MakeTime hour minute sec ms = hour * 3600000 + minute * 60000 + sec * 1000 + ms"

definition MakeDate :: "int \<Rightarrow> int \<Rightarrow> int" where
  "MakeDate day time = day * 86400000 + time"

text \<open>
  \<^verbatim>\<open>Date.UTC(year, month, date, hours, minutes, seconds)\<close>; a year from 0 to 99 means
  1900 + year. The scripts pass numbers of at most four digits, far inside the range of
  time values.
\<close>

definition Date_UTC :: "int \<Rightarrow> int \<Rightarrow> int \<Rightarrow> int \<Rightarrow> int \<Rightarrow> int \<Rightarrow> int" where
  "Date_UTC year month date hours minutes seconds =
     (let yr = (if 0 \<le> year \<and> year \<le> 99 then 1900 + year else year)
      in MakeDate (MakeDay yr month date) (MakeTime hours minutes seconds 0))"

text \<open>The civil date (year, month from 1, day) of a day number counted from 1970-01-01.\<close>

definition civil_from_days :: "int \<Rightarrow> int \<times> int \<times> int" where
  "civil_from_days z =
     (let z1 = z + 719468;
          era = z1 div 146097;
          doe = z1 - era * 146097;
          yoe = (doe - doe div 1460 + doe div 36524 - doe div 146096) div 365;
          doy = doe - (365 * yoe + yoe div 4 - yoe div 100);
          mp = (5 * doy + 2) div 153;
          d = doy - (153 * mp + 2) div 5 + 1;
          m = (if mp < 10 then mp + 3 else mp - 9);
          y = yoe + era * 400 + (if m \<le> 2 then 1 else 0)
      in (y, m, d))"

definition digit_char :: "int \<Rightarrow> char" where
  "digit_char n = ''0123456789'' ! nat (n mod 10)"

definition pad2 :: "int \<Rightarrow> string" where
  "pad2 n = [digit_char (n div 10), digit_char n]"

definition pad3 :: "int \<Rightarrow> string" where
  "pad3 n = [digit_char (n div 100), digit_char (n div 10), digit_char n]"

definition pad4 :: "int \<Rightarrow> string" where
  "pad4 n = [digit_char (n div 1000), digit_char (n div 100), digit_char (n div 10), digit_char n]"

definition pad6 :: "int \<Rightarrow> string" where
  "pad6 n = [digit_char (n div 100000), digit_char (n div 10000)] @ pad4 n"

text \<open>
  \<^verbatim>\<open>toISOString\<close> of a valid time value: \<^verbatim>\<open>YYYY-MM-DDTHH:mm:ss.sssZ\<close>, the year with a
  sign and six digits outside 0..9999.
\<close>

definition toISOString :: "int \<Rightarrow> string" where
  "toISOString t =
     (let day = t div 86400000;
          tm = t mod 86400000;
          (y, m, d) = civil_from_days day;
          year = (if 0 \<le> y \<and> y \<le> 9999 then pad4 y
                  else if y < 0 then CHR ''-'' # pad6 (- y) else CHR ''+'' # pad6 y)
      in year @ ''-'' @ pad2 m @ ''-'' @ pad2 d @ ''T'' @ pad2 (tm div 3600000) @ '':''
         @ pad2 (tm div 60000 mod 60) @ '':'' @ pad2 (tm div 1000 mod 60) @ ''.''
         @ pad3 (tm mod 1000) @ ''Z'')"

subsection \<open>Timestamp normalization\<close>

definition all_digits :: "string \<Rightarrow> bool" where
  "all_digits s = list_all is_digit s"

text \<open>
  The optional time of day that ends both literal shapes,
  \<^verbatim>\<open>(?:[ T](\d{2}):(\d{2})(?::(\d{2}))?)?$\<close>: the captured groups, each absent or two digits.
\<close>

definition match_time_tail :: "string \<Rightarrow> (string option \<times> string option \<times> string option) option" where
  "match_time_tail r =
     (if r = [] then Some (None, None, None)
      else if (length r = 6 \<or> length r = 9)
              \<and> (r ! 0 = CHR '' '' \<or> r ! 0 = CHR ''T'')
              \<and> all_digits (take 2 (drop 1 r)) \<and> r ! 3 = CHR '':''
              \<and> all_digits (take 2 (drop 4 r))
      then (if length r = 6 then Some (Some (take 2 (drop 1 r)), Some (take 2 (drop 4 r)), None)
            else if r ! 6 = CHR '':'' \<and> all_digits (take 2 (drop 7 r))
              then Some (Some (take 2 (drop 1 r)), Some (take 2 (drop 4 r)), Some (take 2 (drop 7 r)))
            else None)
      else None)"

text \<open>
  \<^verbatim>\<open>/^(\d{2})\/(\d{2})\/(\d{4})(?:...)?$/\<close>, groups \<open>(dd, MM, yyyy, hh, mm, ss)\<close>.
\<close>

definition match_dmy ::
  "string \<Rightarrow> (string \<times> string \<times> string \<times> string option \<times> string option \<times> string option) option" where
  "match_dmy s =
     (if 10 \<le> length s \<and> all_digits (take 2 s) \<and> s ! 2 = CHR ''/''
         \<and> all_digits (take 2 (drop 3 s)) \<and> s ! 5 = CHR ''/'' \<and> all_digits (take 4 (drop 6 s))
      then (case match_time_tail (drop 10 s) of
              Some (hh, mm, ss) \<Rightarrow> Some (take 2 s, take 2 (drop 3 s), take 4 (drop 6 s), hh, mm, ss)
            | None \<Rightarrow> None)
      else None)"

text \<open>
  \<^verbatim>\<open>/^(\d{4})-(\d{2})-(\d{2})(?:...)?$/\<close>, groups \<open>(yyyy, MM, dd, hh, mm, ss)\<close>.
\<close>

definition match_ymd ::
  "string \<Rightarrow> (string \<times> string \<times> string \<times> string option \<times> string option \<times> string option) option" where
  "match_ymd s =
     (if 10 \<le> length s \<and> all_digits (take 4 s) \<and> s ! 4 = CHR ''-''
         \<and> all_digits (take 2 (drop 5 s)) \<and> s ! 7 = CHR ''-'' \<and> all_digits (take 2 (drop 8 s))
      then (case match_time_tail (drop 10 s) of
              Some (hh, mm, ss) \<Rightarrow> Some (take 4 s, take 2 (drop 5 s), take 2 (drop 8 s), hh, mm, ss)
            | None \<Rightarrow> None)
      else None)"

text \<open>\<^verbatim>\<open>/^\d{4}-\d{2}-\d{2}T/.test(s)\<close>.\<close>

definition iso_T_shape :: "string \<Rightarrow> bool" where
  "iso_T_shape s =
     (11 \<le> length s \<and> all_digits (take 4 s) \<and> s ! 4 = CHR ''-''
      \<and> all_digits (take 2 (drop 5 s)) \<and> s ! 7 = CHR ''-'' \<and> all_digits (take 2 (drop 8 s))
      \<and> s ! 10 = CHR ''T'')"

text \<open>Unary plus on a captured group, with the destructuring default \<^verbatim>\<open>"00"\<close>.\<close>

definition num :: "string \<Rightarrow> int" where
  "num g = int (digits_val g)"

definition num_or00 :: "string option \<Rightarrow> int" where
  "num_or00 g = (case g of None \<Rightarrow> num ''00'' | Some x \<Rightarrow> num x)"

text \<open>\<^verbatim>\<open>isNaN(d) ? null : d.toISOString()\<close> on the result of the generic parser.\<close>

definition iso_of_parsed :: "int option \<Rightarrow> string option" where
  "iso_of_parsed d = (case d of None \<Rightarrow> None | Some t \<Rightarrow> Some (toISOString t))"

text \<open>\<^verbatim>\<open>toISO\<close> of variant A (\<^verbatim>\<open>src/fetch_cefas.mjs\<close>, lines 14 to 37).\<close>

definition toISO_A :: "host \<Rightarrow> string option \<Rightarrow> string option" where
  "toISO_A h dt =
     (let s = norm_s dt in
      if iso_T_shape s then iso_of_parsed (Date_parse h s)
      else case match_dmy s of
        Some (dd, MM, yyyy, hh, mm, ss) \<Rightarrow>
          Some (toISOString (Date_UTC (num yyyy) (num MM - 1) (num dd)
                                      (num_or00 hh) (num_or00 mm) (num_or00 ss)))
      | None \<Rightarrow>
         (case match_ymd s of
            Some (yyyy, MM, dd, hh, mm, ss) \<Rightarrow>
              Some (toISOString (Date_UTC (num yyyy) (num MM - 1) (num dd)
                                          (num_or00 hh) (num_or00 mm) (num_or00 ss)))
          | None \<Rightarrow> iso_of_parsed (Date_parse h s)))"

text \<open>\<^verbatim>\<open>toISO\<close> of variant D (\<^verbatim>\<open>src/unnamed/part_000\<close>, lines 103 to 113).\<close>

definition toISO_D :: "host \<Rightarrow> string option \<Rightarrow> string option" where
  "toISO_D h dt =
     (let s = norm_s dt in
      case match_dmy s of
        Some (dd, MM, yyyy, hh, mm, ss) \<Rightarrow>
          Some (toISOString (Date_UTC (num yyyy) (num MM - 1) (num dd)
                                      (num_or00 hh) (num_or00 mm) (num_or00 ss)))
      | None \<Rightarrow> iso_of_parsed (Date_parse h (if suffix ''Z'' s then s else s @ ''Z'')))"

text \<open>
  \<^verbatim>\<open>toISO\<close> of variant C (\<^verbatim>\<open>src/unnamed/part_000\<close>, lines 10 to 13) and of variants E and F
  (\<^verbatim>\<open>src/unnamed/part_001\<close>, lines 13 to 18). The argument is a cell, or \<^verbatim>\<open>undefined\<close>:
  \<^verbatim>\<open>new Date(undefined)\<close> is invalid, and the template \<^verbatim>\<open>`${s}Z`\<close> prints it as
  \<^verbatim>\<open>undefinedZ\<close>.
\<close>

definition new_Date :: "host \<Rightarrow> string option \<Rightarrow> int option" where
  "new_Date h v = (case v of None \<Rightarrow> None | Some s \<Rightarrow> Date_parse h s)"

definition String_of :: "string option \<Rightarrow> string" where
  "String_of v = (case v of None \<Rightarrow> ''undefined'' | Some s \<Rightarrow> s)"

definition toISO_C :: "host \<Rightarrow> string option \<Rightarrow> string option" where
  "toISO_C h v = iso_of_parsed (new_Date h v)"

definition toISO_E :: "host \<Rightarrow> string option \<Rightarrow> string option" where
  "toISO_E h v =
     (let d = new_Date h v;
          d2 = (if d = None then Date_parse h (String_of v @ ''Z'') else d)
      in iso_of_parsed d2)"

text \<open>
  Timestamp normalization as the specification words it: the three literal shapes in
  order, then the generic parser on the text with a trailing \<^verbatim>\<open>Z\<close> appended when it has
  none. Kept apart from the code's \<^verbatim>\<open>toISO\<close> functions, to be compared with them.
\<close>

definition toISO_spec :: "host \<Rightarrow> string option \<Rightarrow> string option" where
  "toISO_spec h dt =
     (let s = norm_s dt in
      if iso_T_shape s then iso_of_parsed (Date_parse h s)
      else case match_dmy s of
        Some (dd, MM, yyyy, hh, mm, ss) \<Rightarrow>
          Some (toISOString (Date_UTC (num yyyy) (num MM - 1) (num dd)
                                      (num_or00 hh) (num_or00 mm) (num_or00 ss)))
      | None \<Rightarrow>
         (case match_ymd s of
            Some (yyyy, MM, dd, hh, mm, ss) \<Rightarrow>
              Some (toISOString (Date_UTC (num yyyy) (num MM - 1) (num dd)
                                          (num_or00 hh) (num_or00 mm) (num_or00 ss)))
          | None \<Rightarrow> iso_of_parsed (Date_parse h (if suffix ''Z'' s then s else s @ ''Z''))))"

subsection \<open>Canonical records and the reducer\<close>

text \<open>
  A record of the series is the object \<^verbatim>\<open>{ ts, hm0?, tp?, tz?, dir? }\<close>; a field that
  was never assigned is \<open>None\<close>.
\<close>

record crec =
  ts :: string
  hm0 :: "rat option"
  tp :: "rat option"
  tz :: "rat option"
  dir :: "rat option"

definition new_rec :: "string \<Rightarrow> crec" where
  "new_rec t = \<lparr>ts = t, hm0 = None, tp = None, tz = None, dir = None\<rparr>"

fun set_key :: "ckey \<Rightarrow> rat \<Rightarrow> crec \<Rightarrow> crec" where
  "set_key Hm0 v ob = ob\<lparr>hm0 := Some v\<rparr>"
| "set_key Tp v ob = ob\<lparr>tp := Some v\<rparr>"
| "set_key Tz v ob = ob\<lparr>tz := Some v\<rparr>"
| "set_key Dir v ob = ob\<lparr>dir := Some v\<rparr>"

text \<open>Reading a field by its key, \<^verbatim>\<open>ob[key]\<close>.\<close>

fun get_key :: "ckey \<Rightarrow> crec \<Rightarrow> rat option" where
  "get_key Hm0 ob = hm0 ob"
| "get_key Tp ob = tp ob"
| "get_key Tz ob = tz ob"
| "get_key Dir ob = dir ob"

text \<open>
  \<^verbatim>\<open>byTs\<close> is a \<^verbatim>\<open>Map\<close>: an association list in insertion order.
  \<^verbatim>\<open>if (!byTs.has(ts)) byTs.set(ts, { ts }); byTs.get(ts)[cls] = val;\<close>
\<close>

type_synonym byTs = "(string \<times> crec) list"

definition byTs_put :: "string \<Rightarrow> ckey \<Rightarrow> rat \<Rightarrow> byTs \<Rightarrow> byTs" where
  "byTs_put t k v m =
     AList.map_entry t (set_key k v) (if map_of m t = None then m @ [(t, new_rec t)] else m)"

text \<open>
  \<^verbatim>\<open>xs.sort((a,b) => a.ts.localeCompare(b.ts))\<close>: the sort is stable; it is modelled as
  insertion from the right, which keeps elements that compare equal in their order.
\<close>

fun insort_cmp :: "('a \<Rightarrow> 'a \<Rightarrow> int) \<Rightarrow> 'a \<Rightarrow> 'a list \<Rightarrow> 'a list" where
  "insort_cmp c x [] = [x]"
| "insort_cmp c x (y # ys) = (if c x y \<le> 0 then x # y # ys else y # insort_cmp c x ys)"

definition sort_cmp :: "('a \<Rightarrow> 'a \<Rightarrow> int) \<Rightarrow> 'a list \<Rightarrow> 'a list" where
  "sort_cmp c xs = foldr (insort_cmp c) xs []"

definition sort_by_ts :: "host \<Rightarrow> crec list \<Rightarrow> crec list" where
  "sort_by_ts h xs = sort_cmp (\<lambda>a b. localeCompare h (ts a) (ts b)) xs"

text \<open>\<^verbatim>\<open>series.at(-1) ?? null\<close>.\<close>

definition latest_of :: "crec list \<Rightarrow> crec option" where
  "latest_of series = (if series = [] then None else Some (last series))"

subsection \<open>Variant A: the pipeline of \<^verbatim>\<open>src/fetch_cefas.mjs\<close>\<close>

definition timeCol_A :: "string list \<Rightarrow> string option" where
  "timeCol_A headers =
     js_or (pickExact headers [''Date/Time'', ''DateTime'', ''SampleDateTime'', ''Timestamp'',
                               ''Time'', ''Datetime''])
           (pickLoose headers [''date'', ''time''])"

definition paramCol_A :: "string list \<Rightarrow> string option" where
  "paramCol_A headers =
     js_or (pickExact headers [''Parameter'', ''ParameterCode'', ''ParamCode''])
           (pickLoose headers [''parameter'', ''param'', ''variable'', ''observed'', ''property'',
                               ''name''])"

definition valueCol_A :: "string list \<Rightarrow> string option" where
  "valueCol_A headers =
     js_or (pickExact headers [''ResultMean'', ''Value'', ''Result'', ''Reading'', ''DataValue'',
                               ''NumericValue''])
           (pickLoose headers [''value'', ''result'', ''reading''])"

definition instCol_A :: "string list \<Rightarrow> string option" where
  "instCol_A headers =
     js_or (pickExact headers [''InstId'', ''InstID'', ''InstrumentID'', ''InstrumentId''])
           (pickLoose headers [''inst'', ''instrument''])"

definition deployCol_A :: "string list \<Rightarrow> string option" where
  "deployCol_A headers =
     js_or (pickExact headers [''Deployment'', ''DeploymentName''])
           (pickLoose headers [''deployment'', ''location'', ''site'', ''name''])"

text \<open>Lines 110 and 111: the value cell of a row.\<close>

definition val_A :: "row \<Rightarrow> string option \<Rightarrow> jsnum" where
  "val_A r valueCol = parseFloat (replace_comma (norm_s (cell r valueCol)))"

text \<open>One turn of the loop of lines 104 to 116.\<close>

definition step_A :: "host \<Rightarrow> env \<Rightarrow> string list \<Rightarrow> byTs \<Rightarrow> row \<Rightarrow> byTs" where
  "step_A h e headers m r =
     (if \<not> isCardigan e (instCol_A headers) (deployCol_A headers) r then m
      else case toISO_A h (cell r (timeCol_A headers)) of
        None \<Rightarrow> m
      | Some t \<Rightarrow>
         (case classifyParam (cell r (paramCol_A headers)) of
            None \<Rightarrow> m
          | Some cls \<Rightarrow>
             (case val_A r (valueCol_A headers) of
                Fin v \<Rightarrow> byTs_put t cls v m
              | _ \<Rightarrow> m)))"

definition byTs_A :: "host \<Rightarrow> env \<Rightarrow> row list \<Rightarrow> byTs" where
  "byTs_A h e rows = foldl (step_A h e (Object_keys (hd rows))) [] rows"

definition series_A :: "host \<Rightarrow> env \<Rightarrow> row list \<Rightarrow> crec list" where
  "series_A h e rows = sort_by_ts h (map snd (byTs_A h e rows))"

subsection \<open>Variant E: the pipeline of \<^verbatim>\<open>src/unnamed/part_001\<close>\<close>

definition stationCols_E :: "string list \<Rightarrow> string list" where
  "stationCols_E headers =
     filter_Boolean
       [pickExact headers [''Station'', ''StationCode'', ''Site'', ''SiteCode'', ''StationID''],
        pickLoose headers [''station'', ''site'', ''buoy'']]"

definition platformCols_E :: "string list \<Rightarrow> string list" where
  "platformCols_E headers =
     filter_Boolean
       [pickExact headers [''Platform'', ''PlatformCode'', ''PlatformID'', ''PlatformNumber''],
        pickLoose headers [''platform'']]"

definition nameCols_E :: "string list \<Rightarrow> string list" where
  "nameCols_E headers =
     filter_Boolean
       [pickExact headers [''StationName'', ''SiteName'', ''PlatformName'', ''Location''],
        pickLoose headers [''name'', ''location'']]"

definition filterCols_E :: "string list \<Rightarrow> string list" where
  "filterCols_E headers =
     uniq (stationCols_E headers @ platformCols_E headers @ nameCols_E headers)"

definition valueCol_E :: "string list \<Rightarrow> string option" where
  "valueCol_E headers =
     js_or (pickExact headers [''Value'', ''Result'', ''Reading'', ''DataValue'', ''NumericValue''])
           (pickLoose headers [''value'', ''result'', ''reading''])"

definition paramCol_E :: "string list \<Rightarrow> string option" where
  "paramCol_E headers =
     js_or (pickExact headers [''Parameter'', ''ParameterCode'', ''ParamCode''])
           (pickLoose headers [''parameter'', ''param'', ''variable'', ''observed'', ''property'',
                               ''name''])"

text \<open>
  The wide path, lines 135 to 151: the inner loop over the four keys, then a push of
  the object when it has a field. A row is pushed whatever the series already holds.
\<close>

fun wide_fields :: "(ckey \<times> string) list \<Rightarrow> row \<Rightarrow> ckey list \<Rightarrow> crec \<Rightarrow> crec" where
  "wide_fields wm r [] ob = ob"
| "wide_fields wm r (key # keys) ob =
     (case map_of wm key of
        None \<Rightarrow> wide_fields wm r keys ob
      | Some col \<Rightarrow>
          if col = [] then wide_fields wm r keys ob
          else (case parseFloat (replace_comma (norm_s (cell r (Some col)))) of
                  Fin v \<Rightarrow> wide_fields wm r keys (set_key key v ob)
                | _ \<Rightarrow> wide_fields wm r keys ob))"

definition wide_step :: "host \<Rightarrow> env \<Rightarrow> string list \<Rightarrow> crec list \<Rightarrow> row \<Rightarrow> crec list" where
  "wide_step h e headers series r =
     (if \<not> looksLikeCardigan e (stationMatchPool r (filterCols_E headers)) then series
      else case toISO_E h (cell r (findTimeCol headers)) of
        None \<Rightarrow> series
      | Some t \<Rightarrow>
          (let ob = wide_fields (wideMap headers) r [Hm0, Tp, Tz, Dir] (new_rec t)
           in if hm0 ob \<noteq> None \<or> tp ob \<noteq> None \<or> tz ob \<noteq> None \<or> dir ob \<noteq> None
              then series @ [ob] else series))"

text \<open>The long path, lines 153 to 178.\<close>

definition long_step :: "host \<Rightarrow> env \<Rightarrow> string list \<Rightarrow> byTs \<Rightarrow> row \<Rightarrow> byTs" where
  "long_step h e headers m r =
     (if \<not> looksLikeCardigan e (stationMatchPool r (filterCols_E headers)) then m
      else case toISO_E h (cell r (findTimeCol headers)) of
        None \<Rightarrow> m
      | Some t \<Rightarrow>
         (case classifyLongParam (cell r (paramCol_E headers)) of
            None \<Rightarrow> m
          | Some cls \<Rightarrow>
             (case parseFloat (replace_comma (norm_s (cell r (valueCol_E headers)))) of
                Fin v \<Rightarrow> byTs_put t cls v m
              | _ \<Rightarrow> m)))"

definition series_E :: "host \<Rightarrow> env \<Rightarrow> row list \<Rightarrow> crec list" where
  "series_E h e rows =
     (let headers = Object_keys (hd rows) in
      sort_by_ts h
        (if isWide headers then foldl (wide_step h e headers) [] rows
         else sort_by_ts h (map snd (foldl (long_step h e headers) [] rows))))"

subsection \<open>Variant C: the pipeline of the first script of \<^verbatim>\<open>src/unnamed/part_000\<close>\<close>

definition timeCol_C :: "string list \<Rightarrow> string option" where
  "timeCol_C headers =
     findCol headers [''DateTime'', ''SampleDateTime'', ''Timestamp'', ''Time'', ''Datetime'']
       [''time'']"

definition stationCol_C :: "string list \<Rightarrow> string option" where
  "stationCol_C headers =
     findCol headers [''Station'', ''StationCode'', ''Site'', ''SiteCode'', ''StationID'']
       [''station'', ''site'']"

definition platformCol_C :: "string list \<Rightarrow> string option" where
  "platformCol_C headers =
     findCol headers [''Platform'', ''PlatformCode'', ''PlatformID''] [''platform'']"

definition paramCol_C :: "string list \<Rightarrow> string option" where
  "paramCol_C headers =
     findCol headers [''Parameter'', ''ParameterCode'', ''ParamCode''] [''parameter'']"

definition valueCol_C :: "string list \<Rightarrow> string option" where
  "valueCol_C headers =
     findCol headers [''Value'', ''Result'', ''Reading'', ''DataValue'', ''NumericValue'']
       [''value'', ''result'', ''reading'']"

text \<open>
  \<^verbatim>\<open>const wanted = { Hm0:"hm0", Tpeak:"tp", Tz:"tz", W_PDIR:"dir" }\<close>, read at the trimmed
  parameter cell. (The names that every object inherits, such as \<^verbatim>\<open>constructor\<close>, are
  not modelled.)
\<close>

definition wanted :: "(string \<times> ckey) list" where
  "wanted = [(''Hm0'', Hm0), (''Tpeak'', Tp), (''Tz'', Tz), (''W_PDIR'', Dir)]"

definition step_C :: "host \<Rightarrow> string list \<Rightarrow> byTs \<Rightarrow> row \<Rightarrow> byTs" where
  "step_C h headers m r =
     (case toISO_C h (cell r (timeCol_C headers)) of
        None \<Rightarrow> m
      | Some t \<Rightarrow>
         (case map_of wanted (trim (nullish (cell r (paramCol_C headers)))) of
            None \<Rightarrow> m
          | Some key \<Rightarrow>
             (case parseFloat (replace_comma (String_of (cell r (valueCol_C headers)))) of
                Fin v \<Rightarrow> byTs_put t key v m
              | _ \<Rightarrow> m)))"

definition series_C :: "host \<Rightarrow> env \<Rightarrow> row list \<Rightarrow> crec list" where
  "series_C h e rows =
     (let headers = Object_keys (hd rows);
          filtered = filter (matchesStation e (stationCol_C headers) (platformCol_C headers)) rows
      in sort_by_ts h (map snd (foldl (step_C h headers) [] filtered)))"

text \<open>Variant F, line 147: the value cell is read with no \<^verbatim>\<open>trim\<close>.\<close>

definition val_F :: "row \<Rightarrow> string option \<Rightarrow> jsnum" where
  "val_F r valueCol = parseFloat (replace_comma (String_of (cell r valueCol)))"

subsection \<open>The scripts as programs: exit status and files written\<close>

text \<open>
  What a run is given: the response of the fetch, already parsed into rows when its status
  is a success. What it leaves: an exit status and the files of the output directory.
  A document is kept as the value that \<^verbatim>\<open>JSON.stringify\<close> is given; of the diagnostics
  only the headers and the row count are kept. \<^verbatim>\<open>if (!Number.isFinite(val)) continue\<close> is
  the case distinction on \<open>Fin\<close> in the loops above.
\<close>

datatype response = Http_failed | Http_ok "row list"

datatype doc =
    History "crec list"
  | Latest string string "crec option"
  | Diagnostics_note string
  | Diagnostics "string list" nat
  | Index_html

type_synonym files = "string \<Rightarrow> doc option"

definition run_A :: "host \<Rightarrow> env \<Rightarrow> response \<Rightarrow> files \<Rightarrow> nat \<times> files" where
  "run_A h e resp fs =
     (case resp of
        Http_failed \<Rightarrow> (1, fs)
      | Http_ok rows \<Rightarrow>
          if rows = [] then
            (0, fs(''public/latest.json'' \<mapsto> Latest (STATION_CODE_A e) (PLATFORM_ID_A e) None,
                   ''public/history.json'' \<mapsto> History [],
                   ''public/diagnostics.json'' \<mapsto> Diagnostics_note ''CSV empty''))
          else
            (let series = series_A h e rows in
             (0, fs(''public/history.json'' \<mapsto> History series,
                    ''public/latest.json'' \<mapsto>
                        Latest (STATION_CODE_A e) (PLATFORM_ID_A e) (latest_of series),
                    ''public/diagnostics.json'' \<mapsto>
                        Diagnostics (Object_keys (hd rows)) (length rows),
                    ''public/index.html'' \<mapsto> Index_html))))"

definition run_C :: "host \<Rightarrow> env \<Rightarrow> response \<Rightarrow> files \<Rightarrow> nat \<times> files" where
  "run_C h e resp fs =
     (case resp of
        Http_failed \<Rightarrow> (1, fs)
      | Http_ok rows \<Rightarrow>
          if rows = [] then (1, fs)
          else
            (let headers = Object_keys (hd rows) in
             if \<not> truthy (timeCol_C headers) \<or> \<not> truthy (paramCol_C headers)
                \<or> \<not> truthy (valueCol_C headers)
             then (1, fs)
             else
               (let series = series_C h e rows in
                (0, fs(''public/history.json'' \<mapsto> History series,
                       ''public/latest.json'' \<mapsto>
                           Latest (STATION_CODE_C e) (PLATFORM_ID_C e) (latest_of series),
                       ''public/index.html'' \<mapsto> Index_html)))))"

subsection \<open>Inputs of the scenarios\<close>

text \<open>
  The long-shape scenario of the specification: two rows for one instant, the station
  token in a column \<^verbatim>\<open>Station\<close>; and the same rows with that column named
  \<^verbatim>\<open>Deployment\<close>.
\<close>

definition scenario_rows :: "string \<Rightarrow> row list" where
  "scenario_rows idcol =
     [[(''Time'', ''01/06/2024 12:00''), (''Parameter'', ''Hm0''), (''Value'', ''1,5''),
       (idcol, ''EXT'')],
      [(''Time'', ''01/06/2024 12:00''), (''Parameter'', ''Tp''), (''Value'', ''6.2''),
       (idcol, ''EXT'')]]"

definition scenario_record :: crec where
  "scenario_record =
     \<lparr>ts = ''2024-06-01T12:00:00.000Z'', hm0 = Some (3 / 2), tp = Some (31 / 5),
      tz = None, dir = None\<rparr>"

text \<open>
  A wide-shape payload in which the feed repeats an instant: two rows of the target
  station with one timestamp.
\<close>

definition repeated_wide_rows :: "row list" where
  "repeated_wide_rows =
     [[(''Time'', ''2024-06-01T12:00:00Z''), (''Station'', ''EXT''), (''Hm0'', ''1.2''),
       (''Tp'', ''5.0'')],
      [(''Time'', ''2024-06-01T12:00:00Z''), (''Station'', ''EXT''), (''Hm0'', ''1.3''),
       (''Tp'', ''5.1'')]]"

text \<open>
  Hosts for the closed examples. \<open>utc_host\<close> reads the one ISO text of the examples as
  the standard prescribes and rejects the rest; \<open>london_host\<close> reads a date without
  zone as local time one hour ahead of UTC, and as UTC when a \<^verbatim>\<open>Z\<close> follows. Both
  compare strings by code units.
\<close>

definition code_unit_compare :: "string \<Rightarrow> string \<Rightarrow> int" where
  "code_unit_compare a b = (if a < b then - 1 else if a = b then 0 else 1)"

definition utc_host :: host where
  "utc_host =
     \<lparr>Date_parse = (\<lambda>s. if s = ''2024-06-01T12:00:00Z'' then Some 1717243200000 else None),
      localeCompare = code_unit_compare\<rparr>"

definition london_host :: host where
  "london_host =
     \<lparr>Date_parse = (\<lambda>s. if s = ''1 Jun 2024'' then Some 1717196400000
                       else if s = ''1 Jun 2024Z'' then Some 1717200000000
                       else if s = ''01/06/2024 12:00'' then Some 1704538800000
                       else None),
      localeCompare = code_unit_compare\<rparr>"

text \<open>
  \<open>greenwich_host\<close> is \<open>london_host\<close> in winter: it reads a date without zone as UTC.
  \<open>fallback_rows\<close> is one row of the target deployment whose time cell has none of the
  literal shapes.
\<close>

definition greenwich_host :: host where
  "greenwich_host =
     \<lparr>Date_parse = (\<lambda>s. if s = ''1 Jun 2024'' then Some 1717200000000
                       else if s = ''1 Jun 2024Z'' then Some 1717200000000
                       else if s = ''01/06/2024 12:00'' then Some 1704542400000
                       else None),
      localeCompare = code_unit_compare\<rparr>"

definition fallback_rows :: "row list" where
  "fallback_rows =
     [[(''Time'', ''1 Jun 2024''), (''Parameter'', ''Hm0''), (''Value'', ''1.5''),
       (''Deployment'', ''EXT'')]]"

section \<open>Properties\<close>

subsection \<open>Strings\<close>

lemma includes_s_iff: "includes_s s n \<longleftrightarrow> (\<exists>p q. s = p @ n @ q)"
proof (induction s)
  case Nil
  then show ?case by auto
next
  case (Cons c cs)
  show ?case
  proof
    assume "includes_s (c # cs) n"
    then consider "prefix n (c # cs)" | "includes_s cs n" by auto
    then show "\<exists>p q. c # cs = p @ n @ q"
    proof cases
      case 1
      then obtain q where "c # cs = n @ q" by (auto simp: prefix_def)
      then have "c # cs = [] @ n @ q" by simp
      then show ?thesis by blast
    next
      case 2
      with Cons.IH obtain p q where "cs = p @ n @ q" by blast
      then have "c # cs = (c # p) @ n @ q" by simp
      then show ?thesis by blast
    qed
  next
    assume "\<exists>p q. c # cs = p @ n @ q"
    then obtain p q where pq: "c # cs = p @ n @ q" by blast
    show "includes_s (c # cs) n"
    proof (cases p)
      case Nil
      with pq have "prefix n (c # cs)" by (simp add: prefix_def)
      then show ?thesis by simp
    next
      case (Cons a p')
      with pq have "cs = p' @ n @ q" by simp
      with Cons.IH have "includes_s cs n" by blast
      then show ?thesis by simp
    qed
  qed
qed

lemma includes_s_set: "includes_s s n \<Longrightarrow> set n \<subseteq> set s"
  by (auto simp: includes_s_iff)

lemma strip_non_alnum_no_underscore: "\<not> includes_s (strip_non_alnum s) ''w_pdir''"
proof
  assume "includes_s (strip_non_alnum s) ''w_pdir''"
  then have "set ''w_pdir'' \<subseteq> set (strip_non_alnum s)" by (rule includes_s_set)
  then have "CHR ''_'' \<in> set (strip_non_alnum s)" by simp
  then show False by (simp add: strip_non_alnum_def)
qed

subsection \<open>The two label classifiers are one function\<close>

lemma classifyLongParam_eq: "classifyLongParam v = classifyParam v"
  by (simp add: classifyLongParam_def classifyParam_def)

lemma label_text_no_underscore: "\<not> includes_s (label_text v) ''w_pdir''"
  by (simp add: label_text_def strip_non_alnum_no_underscore)



subsection \<open>The rule for the key \<open>dir\<close>\<close>

text \<open>
  Claim C2, as the specification states it, fails: the label \<^verbatim>\<open>Wave Direction\<close> normalizes
  to \<^verbatim>\<open>wavedirection\<close>, which the code classifies as \<open>dir\<close> because it tests containment of
  \<^verbatim>\<open>direction\<close> (and of \<^verbatim>\<open>mwd\<close>), where the specification asks for equality.
\<close>

theorem classify_dir_counterexample:
  "\<not> (classifyParam (Some ''Wave Direction'') = Some Dir
        \<longleftrightarrow> spec_dir_rule (label_text (Some ''Wave Direction'')))"
  by code_simp

text \<open>
  Claim C2, amended: for every raw label whose normalized text does not contain
  \<^verbatim>\<open>wpdir\<close>, \<^verbatim>\<open>classifyParam\<close> (and \<^verbatim>\<open>classifyLongParam\<close>, the same function) returns
  \<open>dir\<close> exactly when the text meets none of the rules for \<open>hm0\<close>, \<open>tp\<close> and \<open>tz\<close>, which
  are tried first, and equals \<^verbatim>\<open>dp\<close> or contains \<^verbatim>\<open>peakdirection\<close>, \<^verbatim>\<open>mwd\<close> or
  \<^verbatim>\<open>direction\<close>.
\<close>

theorem classify_dir_amended:
  assumes "\<not> includes_s (label_text (Some s)) ''wpdir''"
  shows "(classifyParam (Some s) = Some Dir \<longleftrightarrow>
           \<not> (includes_s (label_text (Some s)) ''hm0'' \<or> includes_s (label_text (Some s)) ''hs''
              \<or> includes_s (label_text (Some s)) ''significantwaveheight'')
         \<and> \<not> (label_text (Some s) = ''tpeak'' \<or> label_text (Some s) = ''tp''
              \<or> includes_s (label_text (Some s)) ''peakperiod'' \<or> label_text (Some s) = ''tpp'')
         \<and> \<not> (label_text (Some s) = ''tz'' \<or> label_text (Some s) = ''t02''
              \<or> includes_s (label_text (Some s)) ''zerocross'')
         \<and> (label_text (Some s) = ''dp'' \<or> includes_s (label_text (Some s)) ''peakdirection''
              \<or> includes_s (label_text (Some s)) ''mwd''
              \<or> includes_s (label_text (Some s)) ''direction''))
       \<and> classifyLongParam (Some s) = classifyParam (Some s)"
  by (simp add: classifyParam_def classifyLongParam_eq label_text_no_underscore Let_def)

theorem classify_dir_amended_witness:
  "\<not> includes_s (label_text (Some ''Mean Direction (deg)'')) ''wpdir''
   \<and> classifyParam (Some ''Mean Direction (deg)'') = Some Dir
   \<and> classifyLongParam (Some ''Mean Direction (deg)'') = Some Dir"
proof -
  have h: "\<not> includes_s (label_text (Some ''Mean Direction (deg)'')) ''wpdir''"
    by code_simp
  have e: "label_text (Some ''Mean Direction (deg)'') = ''meandirectiondeg''" by code_simp
  show ?thesis using h classify_dir_amended [OF h] unfolding e by simp
qed

subsection \<open>Shape detection\<close>

lemma wide_keys_distinct: "distinct (map fst m) \<Longrightarrow> distinct (map fst (wideMap_loop hs m))"
  by (induction hs arbitrary: m) (auto simp: distinct_update split: option.splits)

lemma wide_keys_set:
  "set (map fst (wideMap_loop hs m)) =
     set (map fst m) \<union> {k. \<exists>h \<in> set hs. classifyWideHeader h = Some k}"
  by (induction hs arbitrary: m) (auto simp: dom_update split: option.splits)

lemma wideMap_keys_card:
  "length (map fst (wideMap headers)) =
     card {k. \<exists>h \<in> set headers. classifyWideHeader h = Some k}"
proof -
  have d: "distinct (map fst (wideMap headers))"
    unfolding wideMap_def by (rule wide_keys_distinct) simp
  have "set (map fst (wideMap headers)) = {k. \<exists>h \<in> set headers. classifyWideHeader h = Some k}"
    unfolding wideMap_def by (simp only: wide_keys_set) simp
  with distinct_card [OF d] show ?thesis by simp
qed

text \<open>
  Claim C5, as stated, fails: the headers are not classified as parameter labels. For the
  headers \<^verbatim>\<open>Wave Direction, Hm0\<close> the label classifier gives the two keys \<open>dir\<close> and
  \<open>hm0\<close>, while the header classifier leaves \<^verbatim>\<open>Wave Direction\<close> out and the dataset is
  long.
\<close>

theorem shape_label_counterexample:
  "\<not> (shape_of [''Wave Direction'', ''Hm0''] = Wide
        \<longleftrightarrow> 2 \<le> card {k. \<exists>h \<in> set [''Wave Direction'', ''Hm0''].
                           classifyLongParam (Some h) = Some k})"
proof -
  have a: "classifyLongParam (Some ''Wave Direction'') = Some Dir" by code_simp
  have b: "classifyLongParam (Some ''Hm0'') = Some Hm0" by code_simp
  have "{k. \<exists>h \<in> set [''Wave Direction'', ''Hm0'']. classifyLongParam (Some h) = Some k}
          = {Dir, Hm0}"
    by (auto simp: a b)
  then have c: "card {k. \<exists>h \<in> set [''Wave Direction'', ''Hm0''].
                    classifyLongParam (Some h) = Some k} = 2" by simp
  have d: "shape_of [''Wave Direction'', ''Hm0''] = Long" by code_simp
  show ?thesis unfolding c d by simp
qed

text \<open>
  Claim C5, amended: the dataset is wide exactly when the headers, each classified by the
  header classifier \<^verbatim>\<open>classifyWideHeader\<close>, yield two or more distinct canonical keys,
  and long otherwise.
\<close>

theorem shape_of_two_keys:
  "shape_of headers =
     (if 2 \<le> card {k. \<exists>h \<in> set headers. classifyWideHeader h = Some k} then Wide else Long)"
  unfolding shape_of_def isWide_def wideMap_keys_card ..

theorem shape_of_two_keys_witness:
  "2 \<le> card {k. \<exists>h \<in> set [''Time'', ''Hm0 (m)'', ''Tpeak'']. classifyWideHeader h = Some k}
   \<and> \<not> 2 \<le> card {k. \<exists>h \<in> set [''Time'', ''Parameter'', ''Value'', ''Hs''].
                        classifyWideHeader h = Some k}"
proof -
  have a: "shape_of [''Time'', ''Hm0 (m)'', ''Tpeak''] = Wide" by code_simp
  have b: "shape_of [''Time'', ''Parameter'', ''Value'', ''Hs''] = Long" by code_simp
  from a shape_of_two_keys [of "[''Time'', ''Hm0 (m)'', ''Tpeak'']"]
  have 1: "2 \<le> card {k. \<exists>h \<in> set [''Time'', ''Hm0 (m)'', ''Tpeak'']. classifyWideHeader h = Some k}"
    by (metis shape.distinct(1))
  from b shape_of_two_keys [of "[''Time'', ''Parameter'', ''Value'', ''Hs'']"]
  have 2: "\<not> 2 \<le> card {k. \<exists>h \<in> set [''Time'', ''Parameter'', ''Value'', ''Hs''].
                           classifyWideHeader h = Some k}"
    by (metis shape.distinct(1))
  from 1 2 show ?thesis by blast
qed

subsection \<open>Header classifier against label classifier\<close>




subsection \<open>The long-shape scenario, evaluated\<close>

lemma scenario_headers: "Object_keys (hd (scenario_rows c)) = [''Time'', ''Parameter'', ''Value'', c]"
  by (simp add: scenario_rows_def Object_keys_def)

lemma inst_none: "instCol_A [''Time'', ''Parameter'', ''Value'', ''Station''] = None"
  by code_simp
lemma dep_none: "deployCol_A [''Time'', ''Parameter'', ''Value'', ''Station''] = None"
  by code_simp

lemma lc_station_default: "lc (Some (STATION_CODE_A default_env)) = ''ext''"
  by code_simp

lemma not_card: "\<not> isCardigan default_env None None r"
  by (simp add: isCardigan_def truthy_def lc_station_default)

lemma A_empty: "series_A h default_env (scenario_rows ''Station'') = []"
proof -
  have "byTs_A h default_env (scenario_rows ''Station'') = []"
    unfolding byTs_A_def scenario_headers
    by (simp add: step_A_def inst_none dep_none not_card scenario_rows_def)
  then show ?thesis by (simp add: series_A_def sort_by_ts_def sort_cmp_def)
qed

lemma inst_none_d: "instCol_A [''Time'', ''Parameter'', ''Value'', ''Deployment''] = None"
  by code_simp
lemma dep_d: "deployCol_A [''Time'', ''Parameter'', ''Value'', ''Deployment''] = Some ''Deployment''"
  by code_simp
lemma time_d: "timeCol_A [''Time'', ''Parameter'', ''Value'', ''Deployment''] = Some ''Time''"
  by code_simp
lemma param_d: "paramCol_A [''Time'', ''Parameter'', ''Value'', ''Deployment''] = Some ''Parameter''"
  by code_simp
lemma value_d: "valueCol_A [''Time'', ''Parameter'', ''Value'', ''Deployment''] = Some ''Value''"
  by code_simp

lemma scenario_toISO_A: "toISO_A h (Some ''01/06/2024 12:00'') = Some ''2024-06-01T12:00:00.000Z''"
proof -
  have n: "norm_s (Some ''01/06/2024 12:00'') = ''01/06/2024 12:00''" by code_simp
  have i: "iso_T_shape ''01/06/2024 12:00'' = False" by code_simp
  have m: "match_dmy ''01/06/2024 12:00'' = Some (''01'', ''06'', ''2024'', Some ''12'', Some ''00'', None)"
    by code_simp
  have d: "toISOString (Date_UTC (num ''2024'') (num ''06'' - 1) (num ''01'') (num_or00 (Some ''12'')) (num_or00 (Some ''00'')) (num_or00 None)) = ''2024-06-01T12:00:00.000Z''"
    by code_simp
  show ?thesis by (simp add: toISO_A_def n i m d)
qed

lemmas parse_eval = parseFloat_def is_space_def is_digit_def Let_def number_value_def digits_val_def
  digit_val_def exponent_part_def pow10_def norm_s_def nullish_def trim_def

lemma val_15: "parseFloat (replace_comma (norm_s (Some ''1,5''))) = Fin (3 / 2)"
  by (simp add: parse_eval)
lemma val_62: "parseFloat (replace_comma (norm_s (Some ''6.2''))) = Fin (31 / 5)"
  by (simp add: parse_eval)

lemma cls_hm0: "classifyParam (Some ''Hm0'') = Some Hm0" by code_simp
lemma cls_tp: "classifyParam (Some ''Tp'') = Some Tp" by code_simp

lemma card_d: "isCardigan default_env None (Some ''Deployment'') [(''Time'', a), (''Parameter'', b), (''Value'', c), (''Deployment'', ''EXT'')]"
proof -
  have "lc (Some ''EXT'') = ''ext''" by code_simp
  then show ?thesis
    by (simp add: isCardigan_def truthy_def lc_station_default cell_def)
qed

lemma A_dep: "series_A h default_env (scenario_rows ''Deployment'') = [scenario_record]"
proof -
  have "byTs_A h default_env (scenario_rows ''Deployment'') = [(''2024-06-01T12:00:00.000Z'', scenario_record)]"
    unfolding byTs_A_def scenario_headers
    by (simp add: step_A_def inst_none_d dep_d time_d param_d value_d card_d scenario_rows_def
        cell_def scenario_toISO_A cls_hm0 cls_tp val_A_def val_15 val_62 byTs_put_def new_rec_def scenario_record_def)
  then show ?thesis by (simp add: series_A_def sort_by_ts_def sort_cmp_def)
qed

lemma filterCols_s: "filterCols_E [''Time'', ''Parameter'', ''Value'', ''Station''] = [''Station'']"
  by code_simp
lemma time_s: "findTimeCol [''Time'', ''Parameter'', ''Value'', ''Station''] = Some ''Time''"
  by code_simp
lemma param_s: "paramCol_E [''Time'', ''Parameter'', ''Value'', ''Station''] = Some ''Parameter''"
  by code_simp
lemma value_s: "valueCol_E [''Time'', ''Parameter'', ''Value'', ''Station''] = Some ''Value''"
  by code_simp
lemma long_s: "isWide [''Time'', ''Parameter'', ''Value'', ''Station''] = False"
  by code_simp

lemma looks_s:
  "looksLikeCardigan default_env
     (stationMatchPool [(''Time'', a), (''Parameter'', b), (''Value'', c), (''Station'', ''EXT'')] [''Station''])"
proof -
  have p: "stationMatchPool [(''Time'', a), (''Parameter'', b), (''Value'', c), (''Station'', ''EXT'')] [''Station''] = lc (Some ''EXT'')"
    by (simp add: stationMatchPool_def cell_def nullish_def)
  have q: "looksLikeCardigan default_env (lc (Some ''EXT''))" by code_simp
  show ?thesis unfolding p by (rule q)
qed

lemma scenario_E:
  assumes "Date_parse h ''01/06/2024 12:00'' = Some t"
  shows "series_E h default_env (scenario_rows ''Station'') =
           [\<lparr>ts = toISOString t, hm0 = Some (3 / 2), tp = Some (31 / 5), tz = None, dir = None\<rparr>]"
proof -
  have iso: "toISO_E h (Some ''01/06/2024 12:00'') = Some (toISOString t)"
    using assms by (simp add: toISO_E_def new_Date_def iso_of_parsed_def)
  have "foldl (long_step h default_env [''Time'', ''Parameter'', ''Value'', ''Station'']) [] (scenario_rows ''Station'')
        = [(toISOString t, \<lparr>ts = toISOString t, hm0 = Some (3 / 2), tp = Some (31 / 5), tz = None, dir = None\<rparr>)]"
    by (simp add: long_step_def filterCols_s time_s param_s value_s looks_s scenario_rows_def
        cell_def iso classifyLongParam_eq cls_hm0 cls_tp val_15 val_62 byTs_put_def new_rec_def)
  then show ?thesis
    by (simp add: series_E_def scenario_headers long_s sort_by_ts_def sort_cmp_def)
qed

lemma time_c: "timeCol_C [''Time'', ''Parameter'', ''Value'', ''Station''] = Some ''Time''" by code_simp
lemma station_c: "stationCol_C [''Time'', ''Parameter'', ''Value'', ''Station''] = Some ''Station''" by code_simp
lemma platform_c: "platformCol_C [''Time'', ''Parameter'', ''Value'', ''Station''] = None" by code_simp
lemma param_c: "paramCol_C [''Time'', ''Parameter'', ''Value'', ''Station''] = Some ''Parameter''" by code_simp
lemma value_c: "valueCol_C [''Time'', ''Parameter'', ''Value'', ''Station''] = Some ''Value''" by code_simp

lemma matches_c:
  "matchesStation default_env (Some ''Station'') None [(''Time'', a), (''Parameter'', b), (''Value'', c), (''Station'', ''EXT'')]"
proof -
  have "toUpperCase (trim ''EXT'') = toUpperCase (STATION_CODE_C default_env)" by code_simp
  then show ?thesis by (simp add: matchesStation_def truthy_def cell_def nullish_def)
qed

lemma wanted_hm0: "map_of wanted (trim ''Hm0'') = Some Hm0" by code_simp
lemma wanted_tp: "map_of wanted (trim ''Tp'') = None" by code_simp
lemma val_c15: "parseFloat ''1.5'' = Fin (3 / 2)" by (simp add: parse_eval)

lemma scenario_C:
  assumes "Date_parse h ''01/06/2024 12:00'' = Some t"
  shows "series_C h default_env (scenario_rows ''Station'') =
           [\<lparr>ts = toISOString t, hm0 = Some (3 / 2), tp = None, tz = None, dir = None\<rparr>]"
proof -
  have iso: "toISO_C h (Some ''01/06/2024 12:00'') = Some (toISOString t)"
    using assms by (simp add: toISO_C_def new_Date_def iso_of_parsed_def)
  have f: "filter (matchesStation default_env (Some ''Station'') None) (scenario_rows ''Station'') = scenario_rows ''Station''"
    by (simp add: scenario_rows_def matches_c)
  have "foldl (step_C h [''Time'', ''Parameter'', ''Value'', ''Station'']) [] (scenario_rows ''Station'')
        = [(toISOString t, \<lparr>ts = toISOString t, hm0 = Some (3 / 2), tp = None, tz = None, dir = None\<rparr>)]"
    by (simp add: step_C_def time_c param_c value_c scenario_rows_def cell_def iso nullish_def
        wanted_hm0 wanted_tp String_of_def val_c15 byTs_put_def new_rec_def)
  then show ?thesis
    by (simp add: series_C_def scenario_headers station_c platform_c f sort_by_ts_def sort_cmp_def)
qed

text \<open>
  Claim C1, as stated, fails on the pipeline of \<^verbatim>\<open>src/fetch_cefas.mjs\<close>: it looks for the
  station only in an instrument-id column and in a deployment, location, site or name
  column, finds neither among \<^verbatim>\<open>Time, Parameter, Value, Station\<close>, and selects no row.
\<close>

theorem long_scenario_counterexample:
  "\<forall>h. series_A h default_env (scenario_rows ''Station'') \<noteq> [scenario_record]"
  by (simp add: A_empty)

text \<open>
  Claim C1, amended: for the two rows of the scenario and the default station code
  \<^verbatim>\<open>EXT\<close>, the pipeline of \<^verbatim>\<open>src/fetch_cefas.mjs\<close> yields no record when the token stands
  in a column \<^verbatim>\<open>Station\<close>, and exactly the one record
  \<^verbatim>\<open>{ts: "2024-06-01T12:00:00.000Z", hm0: 1.5, tp: 6.2}\<close> (day first, UTC, comma decimal,
  no other field) when it stands in a column \<^verbatim>\<open>Deployment\<close>. The pipeline of
  \<^verbatim>\<open>src/unnamed/part_001\<close> selects the rows by the column \<^verbatim>\<open>Station\<close> and yields one
  record with \<open>hm0 = 1.5\<close> and \<open>tp = 6.2\<close>, whose timestamp is the reading that the
  host's generic date parser gives of \<^verbatim>\<open>01/06/2024 12:00\<close>; the first script of
  \<^verbatim>\<open>src/unnamed/part_000\<close> yields that record without \<open>tp\<close>, since its table \<^verbatim>\<open>wanted\<close>
  has \<^verbatim>\<open>Tpeak\<close> and not \<^verbatim>\<open>Tp\<close>.
\<close>

theorem long_scenario_amended:
  "series_A h default_env (scenario_rows ''Station'') = []
   \<and> series_A h default_env (scenario_rows ''Deployment'') = [scenario_record]
   \<and> (Date_parse h ''01/06/2024 12:00'' = Some t \<longrightarrow>
        series_E h default_env (scenario_rows ''Station'') =
          [\<lparr>ts = toISOString t, hm0 = Some (3 / 2), tp = Some (31 / 5), tz = None, dir = None\<rparr>]
        \<and> series_C h default_env (scenario_rows ''Station'') =
          [\<lparr>ts = toISOString t, hm0 = Some (3 / 2), tp = None, tz = None, dir = None\<rparr>])"
  by (simp add: A_empty A_dep scenario_E scenario_C)

theorem long_scenario_amended_witness:
  "Date_parse london_host ''01/06/2024 12:00'' = Some 1704538800000
   \<and> series_E london_host default_env (scenario_rows ''Station'') =
         [\<lparr>ts = ''2024-01-06T11:00:00.000Z'', hm0 = Some (3 / 2), tp = Some (31 / 5),
           tz = None, dir = None\<rparr>]
   \<and> series_C london_host default_env (scenario_rows ''Station'') =
         [\<lparr>ts = ''2024-01-06T11:00:00.000Z'', hm0 = Some (3 / 2), tp = None,
           tz = None, dir = None\<rparr>]
   \<and> series_A london_host default_env (scenario_rows ''Deployment'') = [scenario_record]
   \<and> series_A london_host default_env (scenario_rows ''Station'') = []"
proof -
  have p: "Date_parse london_host ''01/06/2024 12:00'' = Some 1704538800000"
    by (simp add: london_host_def)
  have t: "toISOString 1704538800000 = ''2024-01-06T11:00:00.000Z''" by code_simp
  from p long_scenario_amended [of london_host 1704538800000] show ?thesis
    by (simp add: t)
qed

subsection \<open>Timestamp normalization\<close>

lemma all_digits_nth: "all_digits (take n s) \<Longrightarrow> i < n \<Longrightarrow> i < length s \<Longrightarrow> is_digit (s ! i)"
  by (simp add: all_digits_def list_all_length)

lemma slash_not_digit: "\<not> is_digit CHR ''/''"
  by (simp add: is_digit_def)

lemma iso_T_not_dmy: "iso_T_shape s \<Longrightarrow> match_dmy s = None"
proof -
  assume a: "iso_T_shape s"
  then have "all_digits (take 4 s)" and "11 \<le> length s" by (auto simp: iso_T_shape_def)
  then have "is_digit (s ! 2)" by (intro all_digits_nth [where n = 4]) auto
  then have "s ! 2 \<noteq> CHR ''/''" using slash_not_digit by auto
  then show ?thesis by (simp add: match_dmy_def)
qed

lemma dmy_not_ymd: "match_dmy s \<noteq> None \<Longrightarrow> match_ymd s = None"
proof -
  assume a: "match_dmy s \<noteq> None"
  then have l: "10 \<le> length s" and "s ! 2 = CHR ''/''"
    by (auto simp: match_dmy_def split: if_splits)
  then have "\<not> is_digit (s ! 2)" using slash_not_digit by auto
  then have "\<not> all_digits (take 4 s)" using all_digits_nth [of 4 s 2] l by auto
  then show ?thesis by (simp add: match_ymd_def)
qed

text \<open>
  Claim C3, as stated, fails on \<^verbatim>\<open>toISO\<close> of \<^verbatim>\<open>src/fetch_cefas.mjs\<close>: its last step hands
  the text to the generic parser as it is. On a host one hour ahead of UTC the text
  \<^verbatim>\<open>1 Jun 2024\<close> is read as local midnight, where the claim has \<^verbatim>\<open>1 Jun 2024Z\<close> parsed.
\<close>

theorem toISO_spec_counterexample:
  "toISO_A london_host (Some ''1 Jun 2024'') \<noteq> toISO_spec london_host (Some ''1 Jun 2024'')"
proof -
  have n: "norm_s (Some ''1 Jun 2024'') = ''1 Jun 2024''" by code_simp
  have i: "iso_T_shape ''1 Jun 2024'' = False" by code_simp
  have m: "match_dmy ''1 Jun 2024'' = None" by code_simp
  have y: "match_ymd ''1 Jun 2024'' = None" by code_simp
  have z: "suffix ''Z'' ''1 Jun 2024'' = False" by code_simp
  have a: "toISOString 1717196400000 = ''2024-05-31T23:00:00.000Z''" by code_simp
  have b: "toISOString 1717200000000 = ''2024-06-01T00:00:00.000Z''" by code_simp
  show ?thesis
    by (simp add: toISO_A_def toISO_spec_def n i m y z london_host_def iso_of_parsed_def a b)
qed

text \<open>
  Claim C3, amended: \<^verbatim>\<open>toISO\<close> of \<^verbatim>\<open>src/fetch_cefas.mjs\<close> tries the three literal shapes
  in the stated order, first match wins, and agrees with the stated normalization on every
  text of one of those shapes and on every text that already ends in the UTC marker; on
  any other text it hands the trimmed text unchanged to the generic date parser (no marker
  is appended). \<^verbatim>\<open>toISO\<close> of the second script of \<^verbatim>\<open>src/unnamed/part_000\<close> appends the
  marker, and agrees with the stated normalization on the day-first shape and on the texts
  of none of the three shapes. A text that fails every attempt gives \<^verbatim>\<open>null\<close>, and the loop
  drops the row.
\<close>

theorem toISO_amended:
  "((iso_T_shape (norm_s dt) \<or> match_dmy (norm_s dt) \<noteq> None \<or> match_ymd (norm_s dt) \<noteq> None
      \<or> suffix ''Z'' (norm_s dt)) \<longrightarrow> toISO_A h dt = toISO_spec h dt)
   \<and> (\<not> iso_T_shape (norm_s dt) \<and> match_dmy (norm_s dt) = None \<and> match_ymd (norm_s dt) = None
        \<longrightarrow> toISO_A h dt = iso_of_parsed (Date_parse h (norm_s dt)))
   \<and> ((match_dmy (norm_s dt) \<noteq> None \<or> (\<not> iso_T_shape (norm_s dt) \<and> match_ymd (norm_s dt) = None))
        \<longrightarrow> toISO_D h dt = toISO_spec h dt)
   \<and> (toISO_A h (cell r (timeCol_A headers)) = None \<longrightarrow> step_A h e headers m r = m)"
  by (auto simp: toISO_A_def toISO_spec_def toISO_D_def step_A_def Let_def iso_T_not_dmy
      split: option.splits)

theorem toISO_amended_witness:
  "match_dmy (norm_s (Some ''01/06/2024'')) \<noteq> None
   \<and> toISO_A london_host (Some ''01/06/2024'') = toISO_spec london_host (Some ''01/06/2024'')
   \<and> toISO_D london_host (Some ''01/06/2024'') = toISO_spec london_host (Some ''01/06/2024'')
   \<and> \<not> iso_T_shape (norm_s (Some ''1 Jun 2024'')) \<and> match_dmy (norm_s (Some ''1 Jun 2024'')) = None
   \<and> match_ymd (norm_s (Some ''1 Jun 2024'')) = None
   \<and> toISO_A london_host (Some ''1 Jun 2024'') = Some ''2024-05-31T23:00:00.000Z''
   \<and> toISO_A london_host (cell [(''Time'', ''not-a-date'')] (timeCol_A [''Time''])) = None
   \<and> step_A london_host default_env [''Time''] [] [(''Time'', ''not-a-date'')] = []"
proof -
  have d: "match_dmy (norm_s (Some ''01/06/2024'')) \<noteq> None" by code_simp
  have n: "norm_s (Some ''1 Jun 2024'') = ''1 Jun 2024''" by code_simp
  have i: "\<not> iso_T_shape ''1 Jun 2024''" by code_simp
  have m: "match_dmy ''1 Jun 2024'' = None" by code_simp
  have y: "match_ymd ''1 Jun 2024'' = None" by code_simp
  have a: "toISOString 1717196400000 = ''2024-05-31T23:00:00.000Z''" by code_simp
  have c: "cell [(''Time'', ''not-a-date'')] (timeCol_A [''Time'']) = Some ''not-a-date''"
    by code_simp
  have bn: "norm_s (Some ''not-a-date'') = ''not-a-date''" by code_simp
  have bi: "\<not> iso_T_shape ''not-a-date''" by code_simp
  have bm: "match_dmy ''not-a-date'' = None" by code_simp
  have by': "match_ymd ''not-a-date'' = None" by code_simp
  have bad: "toISO_A london_host (Some ''not-a-date'') = None"
    using toISO_amended [of "Some ''not-a-date''" london_host]
    by (simp add: bn bi bm by' london_host_def iso_of_parsed_def)
  from toISO_amended [of "Some ''01/06/2024''" london_host] d
  have 1: "toISO_A london_host (Some ''01/06/2024'') = toISO_spec london_host (Some ''01/06/2024'')"
    and 2: "toISO_D london_host (Some ''01/06/2024'') = toISO_spec london_host (Some ''01/06/2024'')"
    by blast+
  from toISO_amended [of "Some ''1 Jun 2024''" london_host] i m y
  have 3: "toISO_A london_host (Some ''1 Jun 2024'') = Some ''2024-05-31T23:00:00.000Z''"
    by (simp add: n london_host_def iso_of_parsed_def a)
  from toISO_amended [of _ london_host "[(''Time'', ''not-a-date'')]" "[''Time'']" default_env "[]"] bad
  have 4: "step_A london_host default_env [''Time''] [] [(''Time'', ''not-a-date'')] = []"
    by (simp add: c)
  from d 1 2 i m y 3 bad 4 show ?thesis by (simp add: n c)
qed

subsection \<open>Row selection by station code and platform id\<close>

lemma includes_s_append_left: "includes_s a n \<Longrightarrow> includes_s (a @ b) n"
  unfolding includes_s_iff by (metis append.assoc)

lemma includes_s_append_right: "includes_s b n \<Longrightarrow> includes_s (a @ b) n"
  unfolding includes_s_iff by (metis append.assoc)

lemma includes_s_join: "x \<in> set xs \<Longrightarrow> includes_s x n \<Longrightarrow> includes_s (join_s sep xs) n"
proof (induction sep xs rule: join_s.induct)
  case (1 sep)
  then show ?case by simp
next
  case (2 sep x)
  then show ?case by simp
next
  case (3 sep x y ys)
  then show ?case
    by (auto intro: includes_s_append_left includes_s_append_right)
qed

lemma includes_s_split:
  assumes "includes_s (a @ c # b) n" and "c \<notin> set n" and "n \<noteq> []"
  shows "includes_s a n \<or> includes_s b n"
proof -
  from assms(1) obtain p q where e: "a @ c # b = p @ n @ q" by (auto simp: includes_s_iff)
  then consider us where "a = p @ us" "us @ c # b = n @ q"
    | us where "a @ us = p" "c # b = us @ n @ q"
    by (auto simp: append_eq_append_conv2)
  then show ?thesis
  proof cases
    case 1
    from 1(2) consider vs where "us = n @ vs" | vs where "us @ vs = n" "c # b = vs @ q"
      by (auto simp: append_eq_append_conv2)
    then show ?thesis
    proof cases
      case 1
      with \<open>a = p @ us\<close> have "a = p @ n @ vs" by simp
      then show ?thesis unfolding includes_s_iff by blast
    next
      case 2
      show ?thesis
      proof (cases vs)
        case Nil
        with 2 \<open>a = p @ us\<close> have "a = p @ n @ []" by simp
        then show ?thesis unfolding includes_s_iff by blast
      next
        case (Cons v vs')
        with 2 have "c \<in> set n" by auto
        with assms(2) show ?thesis by simp
      qed
    qed
  next
    case 2
    show ?thesis
    proof (cases us)
      case Nil
      with 2 have "c # b = n @ q" by simp
      with assms(3) have "c \<in> set n" by (cases n) auto
      with assms(2) show ?thesis by simp
    next
      case (Cons u us')
      with 2 have "b = us' @ n @ q" by simp
      then show ?thesis unfolding includes_s_iff by blast
    qed
  qed
qed

lemma includes_s_join_bar:
  assumes "includes_s (join_s [c] xs) n" and "c \<notin> set n" and "n \<noteq> []"
  shows "\<exists>x \<in> set xs. includes_s x n"
  using assms
proof (induction "[c]" xs rule: join_s.induct)
  case 1
  then show ?case by simp
next
  case (2 x)
  then show ?case by simp
next
  case (3 x y ys)
  from 3(2) have "includes_s (x @ c # join_s [c] (y # ys)) n" by simp
  from includes_s_split [OF this 3(3) 3(4)] 3 show ?case by auto
qed

lemma upper_bar: "upper_char CHR ''|'' = CHR ''|''"
  by code_simp

lemma toUpperCase_join_bar: "toUpperCase (join_s ''|'' xs) = join_s ''|'' (map toUpperCase xs)"
  by (induction "''|''" xs rule: join_s.induct) (simp_all add: toUpperCase_def upper_bar)

lemma hay_F_join:
  "hay_F r sc pc nc = join_s ''|'' (map (\<lambda>c. toUpperCase (nullish (cell r (Some c)))) (sc @ pc @ nc))"
  by (simp add: hay_F_def pool_F_def toUpperCase_join_bar comp_def)

text \<open>
  Claim C7, as stated, fails on \<^verbatim>\<open>rowIsCardigan\<close>: a row whose station column reads
  \<^verbatim>\<open>NEXT\<close> is selected for the station code \<^verbatim>\<open>EXT\<close>, which the column contains and does
  not equal.
\<close>

theorem exact_match_counterexample:
  "rowIsCardigan default_env [(''Station'', ''NEXT'')] [''Station''] [] []
   \<and> includes_s (hay_F [(''Station'', ''NEXT'')] [''Station''] [] []) (toUpperCase ''EXT'')
   \<and> toUpperCase ''NEXT'' \<noteq> toUpperCase ''EXT''
   \<and> toUpperCase ''NEXT'' \<noteq> toUpperCase ''353~EXT''"
  by code_simp

lemma rowIsCardigan_containment:
  assumes "code = toUpperCase (env_or (env_STATION_CODE e) ''EXT'')
           \<or> code = toUpperCase (env_or (env_PLATFORM_ID e) ''353~EXT'')"
    and "code \<noteq> []" and "CHR ''|'' \<notin> set code"
  shows "((\<exists>c \<in> set (sc @ pc @ nc). includes_s (toUpperCase (nullish (cell r (Some c)))) code)
            \<longleftrightarrow> includes_s (hay_F r sc pc nc) code)
         \<and> ((\<exists>c \<in> set (sc @ pc @ nc). includes_s (toUpperCase (nullish (cell r (Some c)))) code)
            \<longrightarrow> rowIsCardigan e r sc pc nc)"
proof -
  have iff: "(\<exists>c \<in> set (sc @ pc @ nc). includes_s (toUpperCase (nullish (cell r (Some c)))) code)
            \<longleftrightarrow> includes_s (hay_F r sc pc nc) code"
  proof
    assume "\<exists>c \<in> set (sc @ pc @ nc). includes_s (toUpperCase (nullish (cell r (Some c)))) code"
    then obtain c where c: "c \<in> set (sc @ pc @ nc)"
      and i: "includes_s (toUpperCase (nullish (cell r (Some c)))) code" by blast
    from c have "toUpperCase (nullish (cell r (Some c)))
        \<in> set (map (\<lambda>c. toUpperCase (nullish (cell r (Some c)))) (sc @ pc @ nc))" by (simp add: image_iff) blast
    from includes_s_join [OF this i] show "includes_s (hay_F r sc pc nc) code"
      by (simp only: hay_F_join)
  next
    assume "includes_s (hay_F r sc pc nc) code"
    then have "includes_s (join_s [CHR ''|''] (map (\<lambda>c. toUpperCase (nullish (cell r (Some c)))) (sc @ pc @ nc))) code"
      by (simp only: hay_F_join)
    from includes_s_join_bar [OF this assms(3) assms(2)]
    show "\<exists>c \<in> set (sc @ pc @ nc). includes_s (toUpperCase (nullish (cell r (Some c)))) code"
      by auto
  qed
  have "includes_s (hay_F r sc pc nc) code \<Longrightarrow> rowIsCardigan e r sc pc nc"
    using assms(1) by (auto simp: rowIsCardigan_def needles_F_def)
  with iff show ?thesis by blast
qed

lemma toUpperCase_Nil_iff: "toUpperCase x = [] \<longleftrightarrow> x = []"
  by (simp add: toUpperCase_def)

lemma env_or_nonempty: "d \<noteq> [] \<Longrightarrow> env_or v d \<noteq> []"
  by (auto simp: env_or_def truthy_def split: option.splits)

lemma matchesStation_exact:
  "matchesStation e sc pc r \<longleftrightarrow>
     (truthy sc \<and> toUpperCase (trim (nullish (cell r sc))) = toUpperCase (STATION_CODE_C e))
     \<or> (truthy pc \<and> toUpperCase (trim (nullish (cell r pc))) = toUpperCase (PLATFORM_ID_C e))"
proof -
  have "toUpperCase (STATION_CODE_C e) \<noteq> []" "toUpperCase (PLATFORM_ID_C e) \<noteq> []"
    by (simp_all add: toUpperCase_Nil_iff STATION_CODE_C_def PLATFORM_ID_C_def env_or_nonempty)
  then show ?thesis by (auto simp: matchesStation_def Let_def)
qed

lemma isCardigan_containment:
  "truthy dc \<Longrightarrow> includes_s (lc (cell r dc)) (lc (Some (STATION_CODE_A e))) \<Longrightarrow> isCardigan e ic dc r"
  by (simp add: isCardigan_def Let_def)

text \<open>
  Claim C7, amended: the signal is exact equality in the earliest script only.
  \<^verbatim>\<open>matchesStation\<close> selects a row exactly when its trimmed station column equals the
  station code, or its trimmed platform column equals the platform id, both compared
  case-insensitively. In \<^verbatim>\<open>rowIsCardigan\<close> the signal fires exactly when the station code
  or platform id (not empty, without the joining bar) is contained, case-insensitively, in
  the value of one of the row's station, platform or name columns, and a row on which it
  fires is selected. In \<^verbatim>\<open>isCardigan\<close> a row is selected whenever its deployment column
  contains the station code, case-insensitively.
\<close>

theorem station_signal_amended:
  "(matchesStation e sc pc r \<longleftrightarrow>
      (truthy sc \<and> toUpperCase (trim (nullish (cell r sc))) = toUpperCase (STATION_CODE_C e))
      \<or> (truthy pc \<and> toUpperCase (trim (nullish (cell r pc))) = toUpperCase (PLATFORM_ID_C e)))
   \<and> ((code = toUpperCase (env_or (env_STATION_CODE e) ''EXT'')
         \<or> code = toUpperCase (env_or (env_PLATFORM_ID e) ''353~EXT''))
        \<and> code \<noteq> [] \<and> CHR ''|'' \<notin> set code
       \<longrightarrow> ((\<exists>c \<in> set (scs @ pcs @ ncs).
                  includes_s (toUpperCase (nullish (cell r (Some c)))) code)
              \<longleftrightarrow> includes_s (hay_F r scs pcs ncs) code)
           \<and> ((\<exists>c \<in> set (scs @ pcs @ ncs).
                  includes_s (toUpperCase (nullish (cell r (Some c)))) code)
              \<longrightarrow> rowIsCardigan e r scs pcs ncs))
   \<and> (truthy dc \<and> includes_s (lc (cell r dc)) (lc (Some (STATION_CODE_A e)))
       \<longrightarrow> isCardigan e ic dc r)"
  using matchesStation_exact [of e sc pc r] rowIsCardigan_containment [of code e scs pcs ncs r]
    isCardigan_containment [of dc r e ic]
  by blast

theorem station_signal_amended_witness:
  "rowIsCardigan default_env [(''Station'', ''Cardigan Bay Ext 2''), (''Value'', ''1.0'')]
      [''Station''] [] []
   \<and> includes_s (hay_F [(''Station'', ''Cardigan Bay Ext 2''), (''Value'', ''1.0'')]
        [''Station''] [] []) ''EXT''
   \<and> matchesStation default_env (Some ''Station'') None [(''Station'', '' ext ''), (''Value'', ''1.0'')]
   \<and> \<not> matchesStation default_env (Some ''Station'') None
        [(''Station'', ''Cardigan Bay Ext 2''), (''Value'', ''1.0'')]
   \<and> isCardigan default_env None (Some ''Deployment'')
        [(''Deployment'', ''Cardigan Bay Ext 2''), (''Value'', ''1.0'')]"
proof -
  let ?r = "[(''Station'', ''Cardigan Bay Ext 2''), (''Value'', ''1.0'')]"
  let ?r2 = "[(''Station'', '' ext ''), (''Value'', ''1.0'')]"
  let ?r3 = "[(''Deployment'', ''Cardigan Bay Ext 2''), (''Value'', ''1.0'')]"
  have a: "''EXT'' = toUpperCase (env_or (env_STATION_CODE default_env) ''EXT'')" by code_simp
  have d: "includes_s (toUpperCase (nullish (cell ?r (Some ''Station'')))) ''EXT''"
    by code_simp
  have m1: "truthy (Some ''Station'')" "\<not> truthy None" by (simp_all add: truthy_def)
  have m2: "toUpperCase (trim (nullish (cell ?r2 (Some ''Station''))))
              = toUpperCase (STATION_CODE_C default_env)" by code_simp
  have m3: "toUpperCase (trim (nullish (cell ?r (Some ''Station''))))
              \<noteq> toUpperCase (STATION_CODE_C default_env)" by code_simp
  have i1: "truthy (Some ''Deployment'')" by (simp add: truthy_def)
  have i2: "includes_s (lc (cell ?r3 (Some ''Deployment''))) (lc (Some (STATION_CODE_A default_env)))"
    by code_simp
  from station_signal_amended [where e = default_env and code = "''EXT''" and scs = "[''Station'']"
      and pcs = "[]" and ncs = "[]" and r = ?r] a d
  have 1: "rowIsCardigan default_env ?r [''Station''] [] []"
    and 2: "includes_s (hay_F ?r [''Station''] [] []) ''EXT''" by auto
  from station_signal_amended [where e = default_env and sc = "Some ''Station''" and pc = None
      and r = ?r2] m1 m2
  have 3: "matchesStation default_env (Some ''Station'') None ?r2" by blast
  from station_signal_amended [where e = default_env and sc = "Some ''Station''" and pc = None
      and r = ?r] m1 m3
  have 4: "\<not> matchesStation default_env (Some ''Station'') None ?r" by blast
  from station_signal_amended [where e = default_env and dc = "Some ''Deployment''" and r = ?r3
      and ic = None] i1 i2
  have 5: "isCardigan default_env None (Some ''Deployment'') ?r3" by blast
  from 1 2 3 4 5 show ?thesis by blast
qed

subsection \<open>Empty payloads and unresolved columns\<close>

text \<open>
  Claim C8, as stated, fails on the first script of \<^verbatim>\<open>src/unnamed/part_000\<close>: on a
  payload of zero rows it prints \<^verbatim>\<open>CSV had no rows.\<close> and exits with status 1, writing
  nothing (and so it does when the time, parameter or value column is not found).
\<close>

theorem run_C_counterexample: "\<forall>h e fs. run_C h e (Http_ok []) fs = (1, fs)"
  by (simp add: run_C_def)

lemma foldl_step_id: "(\<And>m r. r \<in> set rows \<Longrightarrow> f m r = m) \<Longrightarrow> foldl f m0 rows = m0"
  by (induction rows arbitrary: m0) auto

lemma classifyParam_undefined: "classifyParam None = None"
  by code_simp

lemma val_A_undefined: "val_A r None = NaN" if "map_of r ''null'' = None"
proof -
  have "parseFloat (replace_comma (norm_s None)) = NaN"
    by (simp add: parse_eval)
  with that show ?thesis by (simp add: val_A_def cell_def)
qed

lemma toISO_A_undefined: "Date_parse h [] = None \<Longrightarrow> toISO_A h None = None"
proof -
  assume p: "Date_parse h [] = None"
  have n: "norm_s None = []" by code_simp
  have i: "\<not> iso_T_shape []" by code_simp
  have m: "match_dmy [] = None" by code_simp
  have y: "match_ymd [] = None" by code_simp
  show ?thesis by (simp add: toISO_A_def n i m y p iso_of_parsed_def)
qed

lemma step_A_unresolved:
  assumes "map_of r ''null'' = None"
    and "timeCol_A headers = None \<and> Date_parse h [] = None \<or> paramCol_A headers = None
         \<or> valueCol_A headers = None"
  shows "step_A h e headers m r = m"
proof -
  from assms(1) have c: "cell r None = None" by (simp add: cell_def)
  from assms(2) consider "timeCol_A headers = None" "Date_parse h [] = None"
    | "paramCol_A headers = None" | "valueCol_A headers = None" by auto
  then show ?thesis
  proof cases
    case 1
    then show ?thesis by (simp add: step_A_def c toISO_A_undefined)
  next
    case 2
    then show ?thesis by (simp add: step_A_def c classifyParam_undefined split: option.splits)
  next
    case 3
    then show ?thesis
      by (simp add: step_A_def val_A_undefined [OF assms(1)] split: option.splits)
  qed
qed

lemma series_A_unresolved:
  assumes "\<forall>r \<in> set rows. map_of r ''null'' = None"
    and "timeCol_A (Object_keys (hd rows)) = None \<and> Date_parse h [] = None
         \<or> paramCol_A (Object_keys (hd rows)) = None
         \<or> valueCol_A (Object_keys (hd rows)) = None"
  shows "series_A h e rows = []"
proof -
  have "byTs_A h e rows = []"
    unfolding byTs_A_def
    by (rule foldl_step_id) (use assms in \<open>auto intro!: step_A_unresolved\<close>)
  then show ?thesis by (simp add: series_A_def sort_by_ts_def sort_cmp_def)
qed

text \<open>
  Claim C8, amended: in \<^verbatim>\<open>src/fetch_cefas.mjs\<close>, a run whose payload parses to zero rows
  writes a \<^verbatim>\<open>null\<close> latest record, an empty history and a diagnostics note, and ends with
  status 0; a run with rows whose time column (on a host whose date parser rejects the
  empty text), parameter column or value column is not resolved, and whose rows have no
  column named \<^verbatim>\<open>null\<close>, ends with status 0 having written an empty history and a
  \<^verbatim>\<open>null\<close> latest record.
\<close>

theorem run_A_empty_outputs:
  "run_A h e (Http_ok []) fs =
      (0, fs(''public/latest.json'' \<mapsto> Latest (STATION_CODE_A e) (PLATFORM_ID_A e) None,
             ''public/history.json'' \<mapsto> History [],
             ''public/diagnostics.json'' \<mapsto> Diagnostics_note ''CSV empty''))
   \<and> (rows \<noteq> [] \<and> (\<forall>r \<in> set rows. map_of r ''null'' = None)
        \<and> (timeCol_A (Object_keys (hd rows)) = None \<and> Date_parse h [] = None
            \<or> paramCol_A (Object_keys (hd rows)) = None
            \<or> valueCol_A (Object_keys (hd rows)) = None)
       \<longrightarrow> fst (run_A h e (Http_ok rows) fs) = 0
           \<and> snd (run_A h e (Http_ok rows) fs) ''public/history.json'' = Some (History [])
           \<and> snd (run_A h e (Http_ok rows) fs) ''public/latest.json''
               = Some (Latest (STATION_CODE_A e) (PLATFORM_ID_A e) None))"
proof -
  have 1: "run_A h e (Http_ok []) fs =
      (0, fs(''public/latest.json'' \<mapsto> Latest (STATION_CODE_A e) (PLATFORM_ID_A e) None,
             ''public/history.json'' \<mapsto> History [],
             ''public/diagnostics.json'' \<mapsto> Diagnostics_note ''CSV empty''))"
    by (simp add: run_A_def)
  have 2: "fst (run_A h e (Http_ok rows) fs) = 0
           \<and> snd (run_A h e (Http_ok rows) fs) ''public/history.json'' = Some (History [])
           \<and> snd (run_A h e (Http_ok rows) fs) ''public/latest.json''
               = Some (Latest (STATION_CODE_A e) (PLATFORM_ID_A e) None)"
    if "rows \<noteq> []" and n: "\<forall>r \<in> set rows. map_of r ''null'' = None"
      and u: "timeCol_A (Object_keys (hd rows)) = None \<and> Date_parse h [] = None
            \<or> paramCol_A (Object_keys (hd rows)) = None
            \<or> valueCol_A (Object_keys (hd rows)) = None"
  proof -
    have "series_A h e rows = []" by (rule series_A_unresolved [OF n u])
    with that(1) show ?thesis by (simp add: run_A_def latest_of_def)
  qed
  from 1 2 show ?thesis by blast
qed

theorem run_A_empty_outputs_witness:
  "fst (run_A utc_host default_env (Http_ok [[(''Parameter'', ''Hm0''), (''Value'', ''1.5'')]]) Map.empty) = 0
   \<and> snd (run_A utc_host default_env (Http_ok [[(''Parameter'', ''Hm0''), (''Value'', ''1.5'')]]) Map.empty)
        ''public/history.json'' = Some (History [])
   \<and> snd (run_A utc_host default_env (Http_ok [[(''Parameter'', ''Hm0''), (''Value'', ''1.5'')]]) Map.empty)
        ''public/latest.json'' = Some (Latest ''EXT'' ''353~EXT'' None)
   \<and> fst (run_A utc_host default_env (Http_ok []) Map.empty) = 0"
proof -
  have t: "timeCol_A (Object_keys (hd [[(''Parameter'', ''Hm0''), (''Value'', ''1.5'')]])) = None"
    by code_simp
  have p: "Date_parse utc_host [] = None" by (simp add: utc_host_def)
  have s: "STATION_CODE_A default_env = ''EXT''" by code_simp
  have q: "PLATFORM_ID_A default_env = ''353~EXT''" by code_simp
  from run_A_empty_outputs [of utc_host default_env Map.empty "[[(''Parameter'', ''Hm0''), (''Value'', ''1.5'')]]"] t p
  show ?thesis by (simp add: s q)
qed

subsection \<open>Running again\<close>

lemma toISO_A_hosts:
  assumes "iso_T_shape (norm_s dt) \<or> (match_dmy (norm_s dt) = None \<and> match_ymd (norm_s dt) = None)
           \<longrightarrow> Date_parse h1 (norm_s dt) = Date_parse h2 (norm_s dt)"
  shows "toISO_A h1 dt = toISO_A h2 dt"
  using assms by (auto simp: toISO_A_def Let_def split: option.splits)

lemma step_A_hosts:
  assumes "isCardigan e (instCol_A headers) (deployCol_A headers) r \<longrightarrow>
           (iso_T_shape (norm_s (cell r (timeCol_A headers)))
            \<or> (match_dmy (norm_s (cell r (timeCol_A headers))) = None
                \<and> match_ymd (norm_s (cell r (timeCol_A headers))) = None)
           \<longrightarrow> Date_parse h1 (norm_s (cell r (timeCol_A headers)))
               = Date_parse h2 (norm_s (cell r (timeCol_A headers))))"
  shows "step_A h1 e headers m r = step_A h2 e headers m r"
proof (cases "isCardigan e (instCol_A headers) (deployCol_A headers) r")
  case True
  with assms have "toISO_A h1 (cell r (timeCol_A headers)) = toISO_A h2 (cell r (timeCol_A headers))"
    by (intro toISO_A_hosts) blast
  then show ?thesis by (simp add: step_A_def)
next
  case False
  then show ?thesis by (simp add: step_A_def)
qed

lemma foldl_cong_set:
  "(\<And>m r. r \<in> set rows \<Longrightarrow> f m r = g m r) \<Longrightarrow> foldl f m0 rows = foldl g m0 rows"
  by (induction rows arbitrary: m0) auto

lemma fb_heads: "Object_keys (hd fallback_rows) = [''Time'', ''Parameter'', ''Value'', ''Deployment'']"
  by (simp add: fallback_rows_def Object_keys_def)

lemma fallback_series:
  assumes "Date_parse h ''1 Jun 2024'' = Some t"
  shows "series_A h default_env fallback_rows =
           [\<lparr>ts = toISOString t, hm0 = Some (3 / 2), tp = None, tz = None, dir = None\<rparr>]"
proof -
  have n: "norm_s (Some ''1 Jun 2024'') = ''1 Jun 2024''" by code_simp
  have i: "\<not> iso_T_shape ''1 Jun 2024''" by code_simp
  have m: "match_dmy ''1 Jun 2024'' = None" by code_simp
  have y: "match_ymd ''1 Jun 2024'' = None" by code_simp
  have iso: "toISO_A h (Some ''1 Jun 2024'') = Some (toISOString t)"
    by (simp add: toISO_A_def n i m y assms iso_of_parsed_def)
  have v: "parseFloat (replace_comma (norm_s (Some ''1.5''))) = Fin (3 / 2)"
    by (simp add: parse_eval)
  have "byTs_A h default_env fallback_rows
          = [(toISOString t, \<lparr>ts = toISOString t, hm0 = Some (3 / 2), tp = None, tz = None, dir = None\<rparr>)]"
    unfolding byTs_A_def fb_heads
    by (simp add: step_A_def inst_none_d dep_d time_d param_d value_d card_d fallback_rows_def
        cell_def iso cls_hm0 val_A_def v byTs_put_def new_rec_def)
  then show ?thesis by (simp add: series_A_def sort_by_ts_def sort_cmp_def)
qed

text \<open>
  Claim C9, as stated, fails: the series is not a function of payload and configuration
  alone. The fallback of \<^verbatim>\<open>toISO\<close> hands a text of none of the literal shapes to the
  engine's date parser, which reads \<^verbatim>\<open>1 Jun 2024\<close> in the machine's time zone; one payload
  and one configuration give different timestamps on two hosts.
\<close>

theorem hosts_differ_counterexample:
  "series_A london_host default_env fallback_rows \<noteq> series_A greenwich_host default_env fallback_rows"
proof -
  have a: "toISOString 1717196400000 = ''2024-05-31T23:00:00.000Z''" by code_simp
  have b: "toISOString 1717200000000 = ''2024-06-01T00:00:00.000Z''" by code_simp
  have l: "Date_parse london_host ''1 Jun 2024'' = Some 1717196400000" by (simp add: london_host_def)
  have g: "Date_parse greenwich_host ''1 Jun 2024'' = Some 1717200000000" by (simp add: greenwich_host_def)
  show ?thesis by (simp add: fallback_series [OF l] fallback_series [OF g] a b)
qed

text \<open>
  Claim C9, amended: two runs of \<^verbatim>\<open>src/fetch_cefas.mjs\<close> on one payload with one
  configuration write the same documents whenever their hosts collate strings alike and
  their date parsers agree on the trimmed time cells of the selected rows that have the
  ISO shape with \<^verbatim>\<open>T\<close> or none of the three literal shapes. On day-first and
  year-first cells the hosts' parsers play no part.
\<close>

theorem run_A_same_on_agreeing_hosts:
  assumes "localeCompare h1 = localeCompare h2"
    and "\<forall>r \<in> set rows.
           isCardigan e (instCol_A (Object_keys (hd rows))) (deployCol_A (Object_keys (hd rows))) r \<longrightarrow>
           (iso_T_shape (norm_s (cell r (timeCol_A (Object_keys (hd rows)))))
            \<or> (match_dmy (norm_s (cell r (timeCol_A (Object_keys (hd rows))))) = None
                \<and> match_ymd (norm_s (cell r (timeCol_A (Object_keys (hd rows))))) = None)
           \<longrightarrow> Date_parse h1 (norm_s (cell r (timeCol_A (Object_keys (hd rows)))))
               = Date_parse h2 (norm_s (cell r (timeCol_A (Object_keys (hd rows))))))"
  shows "series_A h1 e rows = series_A h2 e rows
         \<and> run_A h1 e (Http_ok rows) fs = run_A h2 e (Http_ok rows) fs"
proof -
  have "byTs_A h1 e rows = byTs_A h2 e rows"
    unfolding byTs_A_def
    by (rule foldl_cong_set) (use assms(2) in \<open>auto intro!: step_A_hosts\<close>)
  then have s: "series_A h1 e rows = series_A h2 e rows"
    by (simp add: series_A_def sort_by_ts_def assms(1))
  then show ?thesis by (simp add: run_A_def)
qed

theorem run_A_same_on_agreeing_hosts_witness:
  "localeCompare london_host = localeCompare greenwich_host
   \<and> Date_parse london_host ''1 Jun 2024'' \<noteq> Date_parse greenwich_host ''1 Jun 2024''
   \<and> series_A london_host default_env (scenario_rows ''Deployment'')
       = series_A greenwich_host default_env (scenario_rows ''Deployment'')
   \<and> run_A london_host default_env (Http_ok (scenario_rows ''Deployment'')) Map.empty
       = run_A greenwich_host default_env (Http_ok (scenario_rows ''Deployment'')) Map.empty"
proof -
  have c: "localeCompare london_host = localeCompare greenwich_host"
    by (simp add: london_host_def greenwich_host_def)
  have d: "Date_parse london_host ''1 Jun 2024'' \<noteq> Date_parse greenwich_host ''1 Jun 2024''"
    by (simp add: london_host_def greenwich_host_def)
  have n: "norm_s (Some ''01/06/2024 12:00'') = ''01/06/2024 12:00''" by code_simp
  have i: "\<not> iso_T_shape ''01/06/2024 12:00''" by code_simp
  have m: "match_dmy ''01/06/2024 12:00'' \<noteq> None" by code_simp
  have h: "\<forall>r \<in> set (scenario_rows ''Deployment'').
           isCardigan default_env (instCol_A (Object_keys (hd (scenario_rows ''Deployment''))))
              (deployCol_A (Object_keys (hd (scenario_rows ''Deployment'')))) r \<longrightarrow>
           (iso_T_shape (norm_s (cell r (timeCol_A (Object_keys (hd (scenario_rows ''Deployment''))))))
            \<or> (match_dmy (norm_s (cell r (timeCol_A (Object_keys (hd (scenario_rows ''Deployment'')))))) = None
                \<and> match_ymd (norm_s (cell r (timeCol_A (Object_keys (hd (scenario_rows ''Deployment'')))))) = None)
           \<longrightarrow> Date_parse london_host (norm_s (cell r (timeCol_A (Object_keys (hd (scenario_rows ''Deployment''))))))
               = Date_parse greenwich_host (norm_s (cell r (timeCol_A (Object_keys (hd (scenario_rows ''Deployment'')))))))"
    unfolding scenario_headers time_d
    by (simp add: scenario_rows_def cell_def n i m)
  from c d run_A_same_on_agreeing_hosts [OF c h, of Map.empty] show ?thesis by blast
qed

subsection \<open>The value cell\<close>

lemma space_not_digit: "is_space c \<Longrightarrow> \<not> is_digit c"
  by (auto simp: is_space_def is_digit_def)

lemma replace_comma_dropWhile:
  "replace_comma (dropWhile is_space s) = dropWhile is_space (replace_comma s)"
  by (induction s) (auto simp: is_space_def)

lemma replace_comma_append_spaces:
  "\<forall>c \<in> set ws. is_space c \<Longrightarrow> replace_comma (x @ ws) = replace_comma x @ ws"
proof (induction x)
  case Nil
  then show ?case by (induction ws) (auto simp: is_space_def)
next
  case (Cons a x)
  then show ?case by simp
qed

lemma takeWhile_digit_spaces:
  "\<forall>c \<in> set ws. is_space c \<Longrightarrow> takeWhile is_digit (x @ ws) = takeWhile is_digit x"
  by (induction x) (auto simp: space_not_digit takeWhile_eq_Nil_iff)

lemma dropWhile_digit_spaces:
  "\<forall>c \<in> set ws. is_space c \<Longrightarrow> dropWhile is_digit (x @ ws) = dropWhile is_digit x @ ws"
  by (induction x) (auto simp: space_not_digit dropWhile_eq_self_iff)

lemma prefix_spaces:
  assumes "\<forall>c \<in> set ws. is_space c" and "\<forall>c \<in> set n. \<not> is_space c"
  shows "prefix n (x @ ws) = prefix n x"
proof
  assume "prefix n (x @ ws)"
  then consider "prefix n x" | us where "n = x @ us" "prefix us ws" by (auto simp: prefix_append)
  then show "prefix n x"
  proof cases
    case 1
    then show ?thesis .
  next
    case 2
    show ?thesis
    proof (cases us)
      case Nil
      with 2 show ?thesis by simp
    next
      case (Cons u us')
      with 2 have "u \<in> set ws" "u \<in> set n" by (auto simp: prefix_def)
      with assms show ?thesis by blast
    qed
  qed
next
  assume "prefix n x"
  then show "prefix n (x @ ws)" by (simp add: prefix_prefix)
qed

lemma hd_spaces: "\<forall>c \<in> set ws. is_space c \<Longrightarrow> \<not> is_space d \<Longrightarrow> (x @ ws \<noteq> [] \<and> hd (x @ ws) = d) = (x \<noteq> [] \<and> hd x = d)"
  by (cases x; cases ws) auto

lemma exponent_part_spaces:
  assumes "\<forall>c \<in> set ws. is_space c"
  shows "exponent_part (r @ ws) = exponent_part r"
proof (cases r)
  case Nil
  then show ?thesis using assms by (cases ws) (auto simp: exponent_part_def is_space_def)
next
  case r: (Cons e r1)
  show ?thesis
  proof (cases r1)
    case Nil
    have "digits_val (takeWhile is_digit ws) = 0"
      using assms by (cases ws) (auto simp: space_not_digit digits_val_def)
    moreover have "digits_val (takeWhile is_digit (tl ws)) = 0" if "ws \<noteq> []"
      using assms that by (cases ws) (auto simp: digits_val_def takeWhile_digit_spaces [of _ "[]", simplified] takeWhile_eq_Nil_iff space_not_digit)
    ultimately show ?thesis using r Nil assms
      by (cases ws) (auto simp: exponent_part_def)
  next
    case (Cons sg r2)
    then show ?thesis using r assms
      by (simp add: exponent_part_def takeWhile_digit_spaces
          takeWhile_digit_spaces [of ws "sg # r2", simplified])
  qed
qed


lemma dropWhile_space_append:
  assumes "\<forall>c \<in> set ws. is_space c"
  shows "dropWhile is_space (y @ ws) = (if dropWhile is_space y = [] then [] else dropWhile is_space y @ ws)"
proof (induction y)
  case Nil
  from assms show ?case by (simp add: dropWhile_eq_Nil_conv)
next
  case (Cons a y)
  then show ?case by simp
qed

lemma parseFloat_empty: "parseFloat [] = NaN"
  by (simp add: parseFloat_def)

lemma parseFloat_core_spaces:
  assumes ws: "\<forall>c \<in> set ws. is_space c" and t: "t \<noteq> []"
    and that: "dropWhile is_space t = t"
  shows "parseFloat (t @ ws) = parseFloat t"
proof -
  have sp: "\<not> is_space CHR ''-''" "\<not> is_space CHR ''+''" "\<not> is_space CHR ''.''"
    by (simp_all add: is_space_def)
  have inf: "\<forall>c \<in> set ''Infinity''. \<not> is_space c" by (simp add: is_space_def)
  have d: "dropWhile is_space (t @ ws) = t @ ws"
    using that t ws by (simp add: dropWhile_space_append)
  define u where "u = (if t \<noteq> [] \<and> (hd t = CHR ''-'' \<or> hd t = CHR ''+'') then tl t else t)"
  have u': "(if t @ ws \<noteq> [] \<and> (hd (t @ ws) = CHR ''-'' \<or> hd (t @ ws) = CHR ''+'') then tl (t @ ws) else t @ ws) = u @ ws"
    using t by (auto simp: u_def)
  have neg: "(t @ ws \<noteq> [] \<and> hd (t @ ws) = CHR ''-'') = (t \<noteq> [] \<and> hd t = CHR ''-'')"
    using t by auto
  define r1 where "r1 = dropWhile is_digit u"
  have dot: "(r1 @ ws \<noteq> [] \<and> hd (r1 @ ws) = CHR ''.'') = (r1 \<noteq> [] \<and> hd r1 = CHR ''.'')"
    by (rule hd_spaces [OF ws sp(3)])
  have tl1: "r1 \<noteq> [] \<Longrightarrow> tl (r1 @ ws) = tl r1 @ ws" by simp
  show ?thesis
    unfolding parseFloat_def d that Let_def u' neg
    unfolding u_def [symmetric] prefix_spaces [OF ws inf] takeWhile_digit_spaces [OF ws]
      dropWhile_digit_spaces [OF ws] r1_def [symmetric] dot
    by (auto simp: tl1 takeWhile_digit_spaces [OF ws] dropWhile_digit_spaces [OF ws]
        exponent_part_spaces [OF ws] exponent_part_spaces [OF ws, of "[]", simplified])
qed

lemma parseFloat_dropWhile: "parseFloat (dropWhile is_space s) = parseFloat s"
  by (simp add: parseFloat_def)

lemma parseFloat_spaces:
  assumes "\<forall>c \<in> set ws. is_space c"
  shows "parseFloat (y @ ws) = parseFloat y"
proof (cases "dropWhile is_space y = []")
  case True
  then have "\<forall>c \<in> set (y @ ws). is_space c" using assms by (auto simp: dropWhile_eq_Nil_conv)
  then have "dropWhile is_space (y @ ws) = []" by (simp only: dropWhile_eq_Nil_conv)
  then have "parseFloat (dropWhile is_space (y @ ws)) = parseFloat (dropWhile is_space y)"
    using True by (simp only:)
  then show ?thesis by (simp only: parseFloat_dropWhile)
next
  case False
  then have "dropWhile is_space (y @ ws) = dropWhile is_space y @ ws"
    using dropWhile_space_append [OF assms, of y] by (simp only: if_False)
  then have "parseFloat (y @ ws) = parseFloat (dropWhile is_space y @ ws)"
    by (metis parseFloat_dropWhile)
  also have "\<dots> = parseFloat (dropWhile is_space y)"
    by (rule parseFloat_core_spaces [OF assms False]) simp
  finally show ?thesis by (simp only: parseFloat_dropWhile)
qed

lemma trim_decompose:
  "\<exists>ws. (\<forall>c \<in> set ws. is_space c) \<and> dropWhile is_space s = trim s @ ws"
proof -
  let ?u = "dropWhile is_space s"
  have "?u = rev (rev ?u)" by simp
  also have "rev ?u = takeWhile is_space (rev ?u) @ dropWhile is_space (rev ?u)" by simp
  finally have "?u = rev (dropWhile is_space (rev ?u)) @ rev (takeWhile is_space (rev ?u))"
    by (metis rev_append rev_rev_ident)
  moreover have "\<forall>c \<in> set (rev (takeWhile is_space (rev ?u))). is_space c"
    by (auto dest: set_takeWhileD)
  ultimately show ?thesis unfolding trim_def by blast
qed

lemma parseFloat_trim: "parseFloat (replace_comma (trim s)) = parseFloat (replace_comma s)"
proof -
  obtain ws where ws: "\<forall>c \<in> set ws. is_space c" and d: "dropWhile is_space s = trim s @ ws"
    using trim_decompose by blast
  have "parseFloat (replace_comma s) = parseFloat (dropWhile is_space (replace_comma s))"
    by (simp only: parseFloat_dropWhile)
  also have "\<dots> = parseFloat (replace_comma (trim s @ ws))"
    by (simp only: replace_comma_dropWhile [symmetric] d)
  also have "\<dots> = parseFloat (replace_comma (trim s) @ ws)"
    by (simp only: replace_comma_append_spaces [OF ws])
  also have "\<dots> = parseFloat (replace_comma (trim s))"
    by (rule parseFloat_spaces [OF ws])
  finally show ?thesis by simp
qed

lemma val_F_eq_val_A: "val_F r c = val_A r c"
proof (cases "cell r c")
  case None
  have "parseFloat (replace_comma ''undefined'') = NaN" by (simp add: parse_eval)
  moreover have "parseFloat (replace_comma (norm_s None)) = NaN" by (simp add: parse_eval)
  ultimately show ?thesis using None by (simp add: val_F_def val_A_def String_of_def)
next
  case (Some s)
  then show ?thesis
    by (simp add: val_F_def val_A_def String_of_def norm_s_def nullish_def parseFloat_trim)
qed

lemma get_set_key: "get_key k (set_key k v ob) = Some v"
  by (cases k) simp_all

lemma byTs_put_lookup: "\<exists>ob. map_of (byTs_put t k v m) t = Some ob \<and> get_key k ob = Some v"
  by (auto simp: byTs_put_def map_of_map_entry get_set_key split: option.splits)

lemma ex_5abc: "parseFloat (replace_comma (trim ''5.0abc'')) = Fin 5"
  by (simp add: parse_eval)

lemma ex_123: "parseFloat (replace_comma (trim ''1,2,3'')) = Fin (6 / 5)"
  by (simp add: parse_eval)

text \<open>
  Claim C10: for a selected row with a valid timestamp and a classified parameter, the
  value cell is accepted exactly when \<^verbatim>\<open>parseFloat\<close> of the trimmed cell, its first comma
  replaced by a period, is a finite number, and that number is what the record gets; any
  other cell leaves the map as it was. This holds for the loop of \<^verbatim>\<open>src/fetch_cefas.mjs\<close>
  and for the long path of \<^verbatim>\<open>src/unnamed/part_001\<close>; \<^verbatim>\<open>src/unnamed/part_002\<close> does not
  trim and reads the same number. So \<^verbatim>\<open>5.0abc\<close> is accepted as 5 and \<^verbatim>\<open>1,2,3\<close> as 1.2.
\<close>

theorem value_cell_accepted:
  "(isCardigan e (instCol_A headers) (deployCol_A headers) r
      \<and> toISO_A h (cell r (timeCol_A headers)) = Some t
      \<and> classifyParam (cell r (paramCol_A headers)) = Some k
    \<longrightarrow> (case parseFloat (replace_comma (trim (nullish (cell r (valueCol_A headers))))) of
            Fin v \<Rightarrow> step_A h e headers m r = byTs_put t k v m
                     \<and> (\<exists>ob. map_of (step_A h e headers m r) t = Some ob \<and> get_key k ob = Some v)
          | _ \<Rightarrow> step_A h e headers m r = m))
   \<and> (looksLikeCardigan e (stationMatchPool r (filterCols_E headers))
      \<and> toISO_E h (cell r (findTimeCol headers)) = Some t
      \<and> classifyLongParam (cell r (paramCol_E headers)) = Some k
    \<longrightarrow> (case parseFloat (replace_comma (trim (nullish (cell r (valueCol_E headers))))) of
            Fin v \<Rightarrow> long_step h e headers m r = byTs_put t k v m
          | _ \<Rightarrow> long_step h e headers m r = m))
   \<and> val_F r c = parseFloat (replace_comma (trim (nullish (cell r c))))
   \<and> parseFloat (replace_comma (trim ''5.0abc'')) = Fin 5
   \<and> parseFloat (replace_comma (trim ''1,2,3'')) = Fin (6 / 5)"
proof -
  have a: "case parseFloat (replace_comma (trim (nullish (cell r (valueCol_A headers))))) of
            Fin v \<Rightarrow> step_A h e headers m r = byTs_put t k v m
                     \<and> (\<exists>ob. map_of (step_A h e headers m r) t = Some ob \<and> get_key k ob = Some v)
          | _ \<Rightarrow> step_A h e headers m r = m"
    if "isCardigan e (instCol_A headers) (deployCol_A headers) r"
      "toISO_A h (cell r (timeCol_A headers)) = Some t"
      "classifyParam (cell r (paramCol_A headers)) = Some k"
    using that byTs_put_lookup [of t k _ m]
    by (auto simp: step_A_def val_A_def norm_s_def split: jsnum.splits)
  have b: "case parseFloat (replace_comma (trim (nullish (cell r (valueCol_E headers))))) of
            Fin v \<Rightarrow> long_step h e headers m r = byTs_put t k v m
          | _ \<Rightarrow> long_step h e headers m r = m"
    if "looksLikeCardigan e (stationMatchPool r (filterCols_E headers))"
      "toISO_E h (cell r (findTimeCol headers)) = Some t"
      "classifyLongParam (cell r (paramCol_E headers)) = Some k"
    using that by (auto simp: long_step_def norm_s_def split: jsnum.splits)
  have c: "val_F r c = parseFloat (replace_comma (trim (nullish (cell r c))))"
    by (simp add: val_F_eq_val_A val_A_def norm_s_def)
  from a b c ex_5abc ex_123 show ?thesis by blast
qed

theorem value_cell_accepted_witness:
  "isCardigan default_env (instCol_A [''Time'', ''Parameter'', ''Value'', ''Deployment''])
      (deployCol_A [''Time'', ''Parameter'', ''Value'', ''Deployment''])
      [(''Time'', ''01/06/2024 12:00''), (''Parameter'', ''Hm0''), (''Value'', '' 1,5,7 m''), (''Deployment'', ''EXT'')]
   \<and> step_A utc_host default_env [''Time'', ''Parameter'', ''Value'', ''Deployment''] []
        [(''Time'', ''01/06/2024 12:00''), (''Parameter'', ''Hm0''), (''Value'', '' 1,5,7 m''), (''Deployment'', ''EXT'')]
      = byTs_put ''2024-06-01T12:00:00.000Z'' Hm0 (3 / 2) []
   \<and> step_A utc_host default_env [''Time'', ''Parameter'', ''Value'', ''Deployment''] []
        [(''Time'', ''01/06/2024 12:00''), (''Parameter'', ''Hm0''), (''Value'', ''n/a''), (''Deployment'', ''EXT'')]
      = []
   \<and> looksLikeCardigan default_env
        (stationMatchPool [(''Time'', ''2024-06-01T12:00:00Z''), (''Parameter'', ''Hm0''), (''Value'', ''5.0abc''), (''Station'', ''EXT'')]
           (filterCols_E [''Time'', ''Parameter'', ''Value'', ''Station'']))
   \<and> long_step utc_host default_env [''Time'', ''Parameter'', ''Value'', ''Station''] []
        [(''Time'', ''2024-06-01T12:00:00Z''), (''Parameter'', ''Hm0''), (''Value'', ''5.0abc''), (''Station'', ''EXT'')]
      = byTs_put ''2024-06-01T12:00:00.000Z'' Hm0 5 []"
proof -
  let ?hs = "[''Time'', ''Parameter'', ''Value'', ''Deployment'']"
  let ?r1 = "[(''Time'', ''01/06/2024 12:00''), (''Parameter'', ''Hm0''), (''Value'', '' 1,5,7 m''), (''Deployment'', ''EXT'')]"
  let ?r2 = "[(''Time'', ''01/06/2024 12:00''), (''Parameter'', ''Hm0''), (''Value'', ''n/a''), (''Deployment'', ''EXT'')]"
  let ?hs3 = "[''Time'', ''Parameter'', ''Value'', ''Station'']"
  let ?r3 = "[(''Time'', ''2024-06-01T12:00:00Z''), (''Parameter'', ''Hm0''), (''Value'', ''5.0abc''), (''Station'', ''EXT'')]"
  have s1: "isCardigan default_env (instCol_A ?hs) (deployCol_A ?hs) ?r1"
    by (simp add: inst_none_d dep_d card_d)
  have s2: "isCardigan default_env (instCol_A ?hs) (deployCol_A ?hs) ?r2"
    by (simp add: inst_none_d dep_d card_d)
  have t1: "toISO_A utc_host (cell ?r1 (timeCol_A ?hs)) = Some ''2024-06-01T12:00:00.000Z''"
    by (simp add: time_d cell_def scenario_toISO_A)
  have t2: "toISO_A utc_host (cell ?r2 (timeCol_A ?hs)) = Some ''2024-06-01T12:00:00.000Z''"
    by (simp add: time_d cell_def scenario_toISO_A)
  have k1: "classifyParam (cell ?r1 (paramCol_A ?hs)) = Some Hm0"
    by (simp add: param_d cell_def cls_hm0)
  have k2: "classifyParam (cell ?r2 (paramCol_A ?hs)) = Some Hm0"
    by (simp add: param_d cell_def cls_hm0)
  have v1: "parseFloat (replace_comma (trim (nullish (cell ?r1 (valueCol_A ?hs))))) = Fin (3 / 2)"
    by (simp add: value_d cell_def parse_eval)
  have v2: "parseFloat (replace_comma (trim (nullish (cell ?r2 (valueCol_A ?hs))))) = NaN"
    by (simp add: value_d cell_def parse_eval)
  have s3: "looksLikeCardigan default_env (stationMatchPool ?r3 (filterCols_E ?hs3))"
    by (simp add: filterCols_s looks_s)
  have "toISOString 1717243200000 = ''2024-06-01T12:00:00.000Z''" by code_simp
  then have t3: "toISO_E utc_host (cell ?r3 (findTimeCol ?hs3)) = Some ''2024-06-01T12:00:00.000Z''"
    by (simp add: time_s cell_def toISO_E_def new_Date_def utc_host_def iso_of_parsed_def)
  have k3: "classifyLongParam (cell ?r3 (paramCol_E ?hs3)) = Some Hm0"
    by (simp add: param_s cell_def classifyLongParam_eq cls_hm0)
  have v3: "parseFloat (replace_comma (trim (nullish (cell ?r3 (valueCol_E ?hs3))))) = Fin 5"
    by (simp add: value_s cell_def parse_eval)
  from value_cell_accepted [of default_env ?hs ?r1 utc_host "''2024-06-01T12:00:00.000Z''" Hm0 "[]"] s1 t1 k1
  have 1: "step_A utc_host default_env ?hs [] ?r1 = byTs_put ''2024-06-01T12:00:00.000Z'' Hm0 (3 / 2) []"
    by (simp add: v1)
  from value_cell_accepted [of default_env ?hs ?r2 utc_host "''2024-06-01T12:00:00.000Z''" Hm0 "[]"] s2 t2 k2
  have 2: "step_A utc_host default_env ?hs [] ?r2 = []"
    by (simp add: v2)
  from value_cell_accepted [of default_env ?hs3 ?r3 utc_host "''2024-06-01T12:00:00.000Z''" Hm0 "[]"] s3 t3 k3
  have 3: "long_step utc_host default_env ?hs3 [] ?r3 = byTs_put ''2024-06-01T12:00:00.000Z'' Hm0 5 []"
    by (simp add: v3)
  from s1 1 2 s3 3 show ?thesis by blast
qed

subsection \<open>Order and uniqueness of the timestamps\<close>

lemma set_insort_cmp: "set (insort_cmp c x ys) = insert x (set ys)"
  by (induction ys) auto

lemma set_sort_cmp: "set (sort_cmp c xs) = set xs"
  unfolding sort_cmp_def by (induction xs) (auto simp: set_insort_cmp)

lemma distinct_map_insort_cmp:
  "distinct (map f (insort_cmp c x ys)) = (f x \<notin> f ` set ys \<and> distinct (map f ys))"
  by (induction ys) (auto simp: set_insort_cmp)

lemma distinct_map_sort_cmp: "distinct (map f (sort_cmp c xs)) = distinct (map f xs)"
  unfolding sort_cmp_def
  by (induction xs) (auto simp: distinct_map_insort_cmp set_sort_cmp [unfolded sort_cmp_def])

lemma sorted_insort_cmp:
  assumes tot: "\<And>a b. c a b \<le> 0 \<or> c b a \<le> 0"
    and tr: "\<And>a b d. c a b \<le> 0 \<Longrightarrow> c b d \<le> 0 \<Longrightarrow> c a d \<le> 0"
  shows "sorted_wrt (\<lambda>a b. c a b \<le> 0) ys \<Longrightarrow> sorted_wrt (\<lambda>a b. c a b \<le> 0) (insort_cmp c x ys)"
proof (induction ys)
  case Nil
  then show ?case by simp
next
  case (Cons y ys)
  show ?case
  proof (cases "c x y \<le> 0")
    case True
    with Cons.prems tr show ?thesis by auto
  next
    case False
    with tot have "c y x \<le> 0" by blast
    with False Cons show ?thesis by (auto simp: set_insort_cmp)
  qed
qed

lemma sorted_sort_cmp:
  assumes tot: "\<And>a b. c a b \<le> 0 \<or> c b a \<le> 0"
    and tr: "\<And>a b d. c a b \<le> 0 \<Longrightarrow> c b d \<le> 0 \<Longrightarrow> c a d \<le> 0"
  shows "sorted_wrt (\<lambda>a b. c a b \<le> 0) (sort_cmp c xs)"
  unfolding sort_cmp_def
  by (induction xs) (auto intro: sorted_insort_cmp [OF tot tr])

lemma sorted_sort_by_ts:
  assumes "\<And>a b. localeCompare h a b \<le> 0 \<longleftrightarrow> a \<le> b"
  shows "sorted (map ts (sort_by_ts h xs))"
proof -
  have "sorted_wrt (\<lambda>a b. localeCompare h (ts a) (ts b) \<le> 0) (sort_by_ts h xs)"
    unfolding sort_by_ts_def
    by (rule sorted_sort_cmp) (use assms in \<open>auto simp: linear\<close>)
  then show ?thesis by (simp add: sorted_wrt_map assms)
qed

lemma ts_set_key: "ts (set_key k v ob) = ts ob"
  by (cases k) simp_all

lemma map_fst_map_entry: "map fst (AList.map_entry t f m) = map fst m"
  by (induction m) auto

lemma set_map_entry_ts:
  "(\<And>ob. ts (f ob) = ts ob) \<Longrightarrow> \<forall>(k, ob) \<in> set m. ts ob = k
   \<Longrightarrow> \<forall>(k, ob) \<in> set (AList.map_entry t f m). ts ob = k"
  by (induction m) auto

lemma byTs_put_inv:
  assumes "distinct (map fst m)" and "\<forall>(k, ob) \<in> set m. ts ob = k"
  shows "distinct (map fst (byTs_put t k v m)) \<and> (\<forall>(k, ob) \<in> set (byTs_put t k v m). ts ob = k)"
proof -
  let ?m1 = "if map_of m t = None then m @ [(t, new_rec t)] else m"
  have d: "distinct (map fst ?m1)"
    using assms(1) by (auto simp: map_of_eq_None_iff)
  have e: "\<forall>(k, ob) \<in> set ?m1. ts ob = k"
    using assms(2) by (auto simp: new_rec_def)
  from d have "distinct (map fst (byTs_put t k v m))"
    unfolding byTs_put_def by (simp only: map_fst_map_entry)
  moreover from e have "\<forall>(k, ob) \<in> set (byTs_put t k v m). ts ob = k"
    unfolding byTs_put_def by (intro set_map_entry_ts) (simp_all add: ts_set_key)
  ultimately show ?thesis by blast
qed

lemma foldl_inv:
  assumes "P m0" and "\<And>m r. P m \<Longrightarrow> P (f m r)"
  shows "P (foldl f m0 rows)"
  using assms(1) by (induction rows arbitrary: m0) (auto intro: assms(2))

lemma step_A_inv:
  assumes "distinct (map fst m) \<and> (\<forall>(k, ob) \<in> set m. ts ob = k)"
  shows "distinct (map fst (step_A h e headers m r))
         \<and> (\<forall>(k, ob) \<in> set (step_A h e headers m r). ts ob = k)"
  using assms byTs_put_inv [of m]
  by (auto simp: step_A_def split: option.splits jsnum.splits)

lemma long_step_inv:
  assumes "distinct (map fst m) \<and> (\<forall>(k, ob) \<in> set m. ts ob = k)"
  shows "distinct (map fst (long_step h e headers m r))
         \<and> (\<forall>(k, ob) \<in> set (long_step h e headers m r). ts ob = k)"
  using assms byTs_put_inv [of m]
  by (auto simp: long_step_def split: option.splits jsnum.splits)

lemma ts_of_values:
  "\<forall>(k, ob) \<in> set m. ts ob = k \<Longrightarrow> map ts (map snd m) = map fst m"
  by (induction m) auto

lemma distinct_ts_values:
  assumes "distinct (map fst m) \<and> (\<forall>(k, ob) \<in> set m. ts ob = k)"
  shows "distinct (map ts (map snd m))"
proof -
  from assms have "map ts (map snd m) = map fst m" by (intro ts_of_values) blast
  with assms show ?thesis by (simp only:)
qed

lemma code_unit_compare_le: "code_unit_compare a b \<le> 0 \<longleftrightarrow> a \<le> b"
  by (auto simp: code_unit_compare_def)

lemma byTs_A_inv:
  "distinct (map fst (byTs_A h e rows)) \<and> (\<forall>(k, ob) \<in> set (byTs_A h e rows). ts ob = k)"
  unfolding byTs_A_def
  by (rule foldl_inv [where P = "\<lambda>m. distinct (map fst m) \<and> (\<forall>(k, ob) \<in> set m. ts ob = k)"])
     (simp, rule step_A_inv)

lemma long_fold_inv:
  "distinct (map fst (foldl (long_step h e headers) [] rows))
   \<and> (\<forall>(k, ob) \<in> set (foldl (long_step h e headers) [] rows). ts ob = k)"
  by (rule foldl_inv [where P = "\<lambda>m. distinct (map fst m) \<and> (\<forall>(k, ob) \<in> set m. ts ob = k)"])
     (simp, rule long_step_inv)

text \<open>
  Property X1. The series of \<^verbatim>\<open>src/fetch_cefas.mjs\<close> (one path, through the map \<^verbatim>\<open>byTs\<close>): no two
  records share a timestamp; and where the host's \<^verbatim>\<open>localeCompare\<close> orders strings as
  their code units do, the timestamps are in non-decreasing lexical order.
\<close>

theorem series_A_sorted_distinct:
  assumes "\<And>a b. localeCompare h a b \<le> 0 \<longleftrightarrow> a \<le> b"
  shows "sorted (map ts (series_A h e rows)) \<and> distinct (map ts (series_A h e rows))"
proof -
  have "distinct (map ts (map snd (byTs_A h e rows)))"
    by (rule distinct_ts_values [OF byTs_A_inv])
  then have "distinct (map ts (series_A h e rows))"
    by (simp only: series_A_def sort_by_ts_def distinct_map_sort_cmp)
  moreover have "sorted (map ts (series_A h e rows))"
    unfolding series_A_def by (rule sorted_sort_by_ts [OF assms])
  ultimately show ?thesis by blast
qed

theorem series_A_sorted_distinct_witness:
  "(\<forall>a b. localeCompare utc_host a b \<le> 0 \<longleftrightarrow> a \<le> b)
   \<and> sorted (map ts (series_A utc_host default_env (scenario_rows ''Deployment'')))
   \<and> distinct (map ts (series_A utc_host default_env (scenario_rows ''Deployment'')))"
proof -
  have c: "\<And>a b. localeCompare utc_host a b \<le> 0 \<longleftrightarrow> a \<le> b"
    by (simp add: utc_host_def code_unit_compare_le)
  from c series_A_sorted_distinct [of utc_host default_env "scenario_rows ''Deployment''", OF c]
  show ?thesis by blast
qed

text \<open>
  Property X2. The series of \<^verbatim>\<open>src/unnamed/part_001\<close>: under the same proviso on the host its
  timestamps are in non-decreasing lexical order on both paths, and on the long path
  (fewer than two canonical headers) no two records share a timestamp.
\<close>

theorem series_E_sorted_long_distinct:
  assumes "\<And>a b. localeCompare h a b \<le> 0 \<longleftrightarrow> a \<le> b"
  shows "sorted (map ts (series_E h e rows))
         \<and> (\<not> isWide (Object_keys (hd rows)) \<longrightarrow> distinct (map ts (series_E h e rows)))"
proof -
  have s: "sorted (map ts (series_E h e rows))"
    unfolding series_E_def Let_def by (rule sorted_sort_by_ts [OF assms])
  have "distinct (map ts (series_E h e rows))" if "\<not> isWide (Object_keys (hd rows))"
  proof -
    have "distinct (map ts (map snd (foldl (long_step h e (Object_keys (hd rows))) [] rows)))"
      by (rule distinct_ts_values [OF long_fold_inv])
    then show ?thesis using that
      by (simp add: series_E_def sort_by_ts_def distinct_map_sort_cmp)
  qed
  with s show ?thesis by blast
qed

theorem series_E_sorted_long_distinct_witness:
  "(\<forall>a b. localeCompare london_host a b \<le> 0 \<longleftrightarrow> a \<le> b)
   \<and> \<not> isWide (Object_keys (hd (scenario_rows ''Station'')))
   \<and> sorted (map ts (series_E london_host default_env (scenario_rows ''Station'')))
   \<and> distinct (map ts (series_E london_host default_env (scenario_rows ''Station'')))"
proof -
  have c: "\<And>a b. localeCompare london_host a b \<le> 0 \<longleftrightarrow> a \<le> b"
    by (simp add: london_host_def code_unit_compare_le)
  have w: "\<not> isWide (Object_keys (hd (scenario_rows ''Station'')))"
    by (simp add: scenario_headers long_s)
  from c w series_E_sorted_long_distinct [of london_host default_env "scenario_rows ''Station''", OF c]
  show ?thesis by blast
qed

lemma wide_hs: "Object_keys (hd repeated_wide_rows) = [''Time'', ''Station'', ''Hm0'', ''Tp'']"
  by (simp add: repeated_wide_rows_def Object_keys_def)
lemma wide_is: "isWide [''Time'', ''Station'', ''Hm0'', ''Tp'']" by code_simp
lemma wide_map: "wideMap [''Time'', ''Station'', ''Hm0'', ''Tp''] = [(Hm0, ''Hm0''), (Tp, ''Tp'')]" by code_simp
lemma wide_fc: "filterCols_E [''Time'', ''Station'', ''Hm0'', ''Tp''] = [''Station'']" by code_simp
lemma wide_tc: "findTimeCol [''Time'', ''Station'', ''Hm0'', ''Tp''] = Some ''Time''" by code_simp

lemma wide_looks:
  "looksLikeCardigan default_env
     (stationMatchPool [(''Time'', a), (''Station'', ''EXT''), (''Hm0'', b), (''Tp'', c)] [''Station''])"
proof -
  have p: "stationMatchPool [(''Time'', a), (''Station'', ''EXT''), (''Hm0'', b), (''Tp'', c)] [''Station''] = lc (Some ''EXT'')"
    by (simp add: stationMatchPool_def cell_def nullish_def)
  have q: "looksLikeCardigan default_env (lc (Some ''EXT''))" by code_simp
  show ?thesis unfolding p by (rule q)
qed

lemma wide_vals:
  "parseFloat (replace_comma (norm_s (Some ''1.2''))) = Fin (6 / 5)"
  "parseFloat (replace_comma (norm_s (Some ''5.0''))) = Fin 5"
  "parseFloat (replace_comma (norm_s (Some ''1.3''))) = Fin (13 / 10)"
  "parseFloat (replace_comma (norm_s (Some ''5.1''))) = Fin (51 / 10)"
  by (simp_all add: parse_eval)

text \<open>
  Claim C4 holds of the long path and fails on the wide path of \<^verbatim>\<open>src/unnamed/part_001\<close>,
  which pushes one object per selected row and never looks at the timestamps already in
  the series. On a payload with headers \<^verbatim>\<open>Time, Station, Hm0, Tp\<close> and two rows of the
  instant \<^verbatim>\<open>2024-06-01T12:00:00Z\<close>, any host that reads this ISO text as the standard
  prescribes gets a series of two records with one timestamp.
\<close>

theorem wide_path_repeats_timestamp:
  assumes "Date_parse h ''2024-06-01T12:00:00Z'' = Some 1717243200000"
  shows "map ts (series_E h default_env repeated_wide_rows)
           = [''2024-06-01T12:00:00.000Z'', ''2024-06-01T12:00:00.000Z'']
         \<and> \<not> distinct (map ts (series_E h default_env repeated_wide_rows))"
proof -
  have i: "toISOString 1717243200000 = ''2024-06-01T12:00:00.000Z''" by code_simp
  have iso: "toISO_E h (Some ''2024-06-01T12:00:00Z'') = Some ''2024-06-01T12:00:00.000Z''"
    using assms by (simp add: toISO_E_def new_Date_def iso_of_parsed_def i)
  have f: "foldl (wide_step h default_env [''Time'', ''Station'', ''Hm0'', ''Tp'']) [] repeated_wide_rows
        = [\<lparr>ts = ''2024-06-01T12:00:00.000Z'', hm0 = Some (6 / 5), tp = Some 5, tz = None, dir = None\<rparr>,
           \<lparr>ts = ''2024-06-01T12:00:00.000Z'', hm0 = Some (13 / 10), tp = Some (51 / 10), tz = None, dir = None\<rparr>]"
    by (simp add: wide_step_def wide_fc wide_tc wide_looks repeated_wide_rows_def cell_def iso
        wide_map wide_vals new_rec_def del: not_None_eq)
  have "map ts (series_E h default_env repeated_wide_rows)
           = [''2024-06-01T12:00:00.000Z'', ''2024-06-01T12:00:00.000Z'']"
    by (simp add: series_E_def wide_hs wide_is f sort_by_ts_def sort_cmp_def)
  then show ?thesis by simp
qed

theorem wide_path_repeats_timestamp_witness:
  "Date_parse utc_host ''2024-06-01T12:00:00Z'' = Some 1717243200000
   \<and> map ts (series_E utc_host default_env repeated_wide_rows)
           = [''2024-06-01T12:00:00.000Z'', ''2024-06-01T12:00:00.000Z'']"
proof -
  have p: "Date_parse utc_host ''2024-06-01T12:00:00Z'' = Some 1717243200000"
    by (simp add: utc_host_def)
  from p wide_path_repeats_timestamp [OF p] show ?thesis by blast
qed

end
